theory Spec2Isabelle
  imports Main
begin

section \<open>Strings\<close>

text \<open>
  A JavaScript string is modelled as a \<^typ>\<open>string\<close>: a list of code units, each
  below 256 (the Latin-1 range). The functions below are the built-in string
  methods the terminal uses, restricted to that range.
\<close>

text \<open>\<^verbatim>\<open>String.prototype.trim\<close> strips white space and line terminators:
  within the range these are TAB, LF, VT, FF, CR, SPACE and NBSP.\<close>

definition is_ws :: "char \<Rightarrow> bool" where
  "is_ws c = (of_char c \<in> {9, 10, 11, 12, 13, 32, 160 :: nat})"

definition trim :: "string \<Rightarrow> string" where
  "trim s = rev (dropWhile is_ws (rev (dropWhile is_ws s)))"

text \<open>\<^verbatim>\<open>s.split(d)\<close> for a one-character separator: the empty string yields
  one empty piece, and every occurrence of the separator ends a piece.\<close>

fun split_from :: "char \<Rightarrow> string \<Rightarrow> string \<Rightarrow> string list" where
  "split_from d acc [] = [rev acc]"
| "split_from d acc (c # cs) =
     (if c = d then rev acc # split_from d [] cs else split_from d (c # acc) cs)"

definition split :: "char \<Rightarrow> string \<Rightarrow> string list" where
  "split d s = split_from d [] s"

definition newline :: char where
  "newline = CHR 0x0A"

text \<open>\<^verbatim>\<open>xs.join(' ')\<close>.\<close>

fun join :: "string list \<Rightarrow> string" where
  "join [] = []"
| "join [x] = x"
| "join (x # y # ys) = x @ '' '' @ join (y # ys)"

text \<open>\<^verbatim>\<open>String.prototype.toLowerCase\<close> on the Latin-1 range: A..Z and the
  accented capitals 0xC0..0xDE (but not the multiplication sign 0xD7) move up by 32.\<close>

definition lower_char :: "char \<Rightarrow> char" where
  "lower_char c = (let n = (of_char c :: nat) in
     if 65 \<le> n \<and> n \<le> 90 then char_of (n + 32)
     else if 192 \<le> n \<and> n \<le> 222 then (if n = 215 then c else char_of (n + 32))
     else c)"

definition toLowerCase :: "string \<Rightarrow> string" where
  "toLowerCase s = map lower_char s"

definition startsWith :: "string \<Rightarrow> string \<Rightarrow> bool" where
  "startsWith s p = (take (length p) s = p)"

text \<open>\<^verbatim>\<open>s.padEnd(n, ' ')\<close>.\<close>

definition padEnd :: "nat \<Rightarrow> string \<Rightarrow> string" where
  "padEnd n s = s @ replicate (n - length s) CHR '' ''"

text \<open>A number inside a template literal: its decimal digits.\<close>

fun digits :: "nat \<Rightarrow> nat \<Rightarrow> string" where
  "digits 0 n = []"
| "digits (Suc fuel) n =
     (if n < 10 then [char_of (48 + n)]
      else digits fuel (n div 10) @ [char_of (48 + n mod 10)])"

definition show_nat :: "nat \<Rightarrow> string" where
  "show_nat n = digits (Suc n) n"

text \<open>Truthiness of a string-or-null value: \<^verbatim>\<open>null\<close>, \<^verbatim>\<open>undefined\<close> and the
  empty string are falsy.\<close>

fun truthy :: "string option \<Rightarrow> bool" where
  "truthy None = False"
| "truthy (Some s) = (s \<noteq> [])"

text \<open>The string of a value that was tested truthy.\<close>

fun str_of :: "string option \<Rightarrow> string" where
  "str_of None = []"
| "str_of (Some s) = s"

section \<open>Display lines (types.ts)\<close>

datatype LineType = COMMAND | OUTPUT | ERROR | SYSTEM | CODE | IMAGE | VIDEO | SOURCES

record Source =
  title :: string
  uri :: string

text \<open>\<^verbatim>\<open>text: string | string[]\<close>\<close>

datatype line_text = Str string | Arr "string list"

record Line =
  "type" :: LineType
  "text" :: line_text
  sources :: "Source list option"

definition mk_line :: "LineType \<Rightarrow> line_text \<Rightarrow> Line" where
  "mk_line ty tx = \<lparr> type = ty, text = tx, sources = None \<rparr>"

section \<open>The backend (services/geminiService.ts) as an environment\<close>

text \<open>
  The backend is outside the terminal: what it answers is a parameter of every
  handler. A thrown value is either an \<^verbatim>\<open>Error\<close> object with its message or
  anything else. A finished stream is the list of fragments it yielded and, when
  it ended by raising, the thrown value.

  The moment at which React runs the state updaters a handler has queued is a
  parameter too: \<open>rendersAfter n\<close> tells whether the updaters queued so far are
  run after the n-th event of a search stream (counted from 0), before the next
  event is consumed. They are when React renders between the two events, as it
  does when the next event arrives in a later response, and when React computes
  the update at once, the queue being empty; they stay queued when the next
  event follows in the same task.
\<close>

datatype exn = ErrorObject string | OtherThrown

type_synonym text_stream = "string list \<times> exn option"

datatype StreamEvent = chunk string | sources_event "Source list"

type_synonym search_stream = "StreamEvent list \<times> exn option"

record CodeResponse =
  explanation :: string
  code :: string

record EditedImageResponse =
  image :: "string option"
  edited_text :: "string option"

text \<open>Of an \<^verbatim>\<open>Operation\<close> the terminal reads \<^verbatim>\<open>done\<close> and
  \<^verbatim>\<open>response?.generatedVideos?.[0]?.video?.uri\<close>.\<close>

record Operation =
  "done" :: bool
  downloadLink :: "string option"

datatype video_start = StartThrows exn | StartError string | StartOperation Operation

text \<open>What \<^verbatim>\<open>documents[name]\<close> evaluates to: an own property's string, a member
  inherited from \<^verbatim>\<open>Object.prototype\<close>, or \<^verbatim>\<open>undefined\<close>.\<close>

datatype jsval = JString string | JInherited | JUndefined

datatype call =
    AskGeminiStream string
  | SendChatMessageStream string
  | SendChatDocMessageStream string
  | SearchWithGoogleStream string
  | GenerateCode string
  | GenerateImage string
  | EditImage string string
  | GenerateVideo string
  | GetVideosOperation Operation
  | Fetch string
  | StartChat
  | StartChatDoc jsval
  | ClickFileInput

record env =
  askGeminiStream :: "string \<Rightarrow> text_stream"
  sendChatMessageStream :: "string \<Rightarrow> text_stream"
  sendChatDocMessageStream :: "string \<Rightarrow> text_stream"
  searchWithGoogleStream :: "string \<Rightarrow> search_stream"
  generateCode :: "string \<Rightarrow> CodeResponse"
  generateImage :: "string \<Rightarrow> string"
  editImage :: "string \<Rightarrow> string \<Rightarrow> EditedImageResponse"
  generateVideo :: "string \<Rightarrow> video_start"
  getVideosOperation :: "nat \<Rightarrow> Operation \<Rightarrow> exn + Operation"
  fetchBlob :: "string \<Rightarrow> exn + string"
  API_KEY :: "string option"
  dateString :: string
  reactVersion :: string
  rendersAfter :: "nat \<Rightarrow> bool"

section \<open>Session state (the useState cells of Terminal.tsx)\<close>

text \<open>
  \<open>documents\<close> is the \<^verbatim>\<open>Record<string, string>\<close> as the list of its own
  properties in insertion order. \<open>trace\<close> is not a cell of the component: it
  records the backend calls made so far, in order.
\<close>

record state =
  lines :: "Line list"
  commandHistory :: "string list"
  historyIndex :: int
  inputValue :: string
  suggestions :: "string list"
  isLoading :: bool
  isChatMode :: bool
  isChatDocMode :: bool
  isListening :: bool
  documents :: "(string \<times> string) list"
  activeDoc :: "string option"
  lastImage :: "string option"
  trace :: "call list"

text \<open>How a handler ends: it returns, it rejects with a thrown value, or a state
  updater raised a \<^verbatim>\<open>TypeError\<close> (reading the last line of an empty list).\<close>

datatype outcome = Returns state | Throws exn state | Crash

definition append_lines :: "Line list \<Rightarrow> state \<Rightarrow> state" where
  "append_lines ls s = s\<lparr>lines := lines s @ ls\<rparr>"

definition call_backend :: "call \<Rightarrow> state \<Rightarrow> state" where
  "call_backend c s = s\<lparr>trace := trace s @ [c]\<rparr>"

section \<open>Streaming handlers\<close>

text \<open>\<^verbatim>\<open>newLines[newLines.length - 1].text = t\<close>; on an empty list the read is
  \<^verbatim>\<open>undefined\<close> and the assignment raises.\<close>

definition set_last_text :: "line_text \<Rightarrow> Line list \<Rightarrow> Line list option" where
  "set_last_text t ls =
     (if ls = [] then None else Some (butlast ls @ [(last ls)\<lparr>text := t\<rparr>]))"

text \<open>The \<^verbatim>\<open>for await\<close> loop of handleAsk, handleChat and
  handleChatDocConversation (the three bodies are the same text). Each update is
  applied here as it is queued. React may run it later, when the buffer has
  grown; the update of the \<^verbatim>\<open>finally\<close> block runs last and then reads the
  whole buffer, so the line ends the same either way.\<close>

fun consume :: "string list \<Rightarrow> string \<Rightarrow> Line list \<Rightarrow> (string \<times> Line list) option" where
  "consume [] streamedText ls = Some (streamedText, ls)"
| "consume (c # rest) streamedText ls =
     (case set_last_text (Str (streamedText @ c)) ls of
        None \<Rightarrow> None
      | Some ls' \<Rightarrow> consume rest (streamedText @ c) ls')"

text \<open>From \<^verbatim>\<open>setIsLoading(true)\<close> to the end of the \<^verbatim>\<open>finally\<close> block. The
  exception of a raising producer passes through \<^verbatim>\<open>finally\<close> and rejects the
  handler.\<close>

fun ended :: "exn option \<Rightarrow> state \<Rightarrow> outcome" where
  "ended None s = Returns s"
| "ended (Some e) s = Throws e s"

definition stream_reply :: "call \<Rightarrow> text_stream \<Rightarrow> state \<Rightarrow> outcome" where
  "stream_reply c stream s =
     (let s1 = call_backend c
                 (append_lines [mk_line OUTPUT (Str [])] (s\<lparr>isLoading := True\<rparr>))
      in case consume (fst stream) [] (lines s1) of
           None \<Rightarrow> Crash
         | Some (streamedText, ls) \<Rightarrow>
             (case set_last_text (Arr (split newline streamedText)) ls of
                None \<Rightarrow> Crash
              | Some ls' \<Rightarrow>
                  ended (snd stream) (s1\<lparr>lines := ls', isLoading := False\<rparr>)))"

definition handleAsk :: "env \<Rightarrow> string \<Rightarrow> state \<Rightarrow> outcome" where
  "handleAsk E prompt s = stream_reply (AskGeminiStream prompt) (askGeminiStream E prompt) s"

definition handleChat :: "env \<Rightarrow> string \<Rightarrow> state \<Rightarrow> outcome" where
  "handleChat E message s =
     (if toLowerCase message = ''exit''
      then Returns (append_lines [mk_line SYSTEM (Str ''Exited chat mode.'')]
                      (s\<lparr>isChatMode := False\<rparr>))
      else stream_reply (SendChatMessageStream message) (sendChatMessageStream E message) s)"

definition handleChatDocConversation :: "env \<Rightarrow> string \<Rightarrow> state \<Rightarrow> outcome" where
  "handleChatDocConversation E message s =
     (if toLowerCase message = ''exit''
      then Returns (append_lines [mk_line SYSTEM (Str ''Exited document chat mode.'')]
                      (s\<lparr>isChatDocMode := False\<rparr>))
      else stream_reply (SendChatDocMessageStream message)
             (sendChatDocMessageStream E message) s)"

text \<open>handleSearch guards each update of the last line by its type.\<close>

definition set_last_text_if_output :: "line_text \<Rightarrow> Line list \<Rightarrow> Line list option" where
  "set_last_text_if_output t ls =
     (if ls = [] then None
      else if type (last ls) = OUTPUT then Some (butlast ls @ [(last ls)\<lparr>text := t\<rparr>])
      else Some ls)"

definition sources_line :: "Source list \<Rightarrow> Line" where
  "sources_line srcs = \<lparr> type = SOURCES, text = Str [], sources = Some srcs \<rparr>"

text \<open>
  The updaters handleSearch passes to \<^verbatim>\<open>setLines\<close> close over the variable
  \<^verbatim>\<open>streamedText\<close> and read it when React runs them, which may be after
  later events have grown the buffer. So an update is kept as what it will do,
  and is given the buffer of the moment it runs.
\<close>

datatype updater = ChunkUpdate | SourcesUpdate "Source list"

fun run_updater :: "string \<Rightarrow> updater \<Rightarrow> Line list \<Rightarrow> Line list option" where
  "run_updater streamedText ChunkUpdate ls = set_last_text_if_output (Str streamedText) ls"
| "run_updater streamedText (SourcesUpdate srcs) ls =
     (case set_last_text_if_output (Arr (split newline streamedText)) ls of
        None \<Rightarrow> None
      | Some ls' \<Rightarrow> Some (ls' @ [sources_line srcs]))"

fun run_updaters :: "string \<Rightarrow> updater list \<Rightarrow> Line list \<Rightarrow> Line list option" where
  "run_updaters streamedText [] ls = Some ls"
| "run_updaters streamedText (u # us) ls =
     (case run_updater streamedText u ls of
        None \<Rightarrow> None
      | Some ls' \<Rightarrow> run_updaters streamedText us ls')"

text \<open>After an event: React runs what is queued, with the buffer as it is now,
  or leaves it queued.\<close>

definition render_or_wait ::
  "bool \<Rightarrow> string \<Rightarrow> updater list \<Rightarrow> Line list \<Rightarrow> (updater list \<times> Line list) option" where
  "render_or_wait renders streamedText pending ls =
     (if renders
      then (case run_updaters streamedText pending ls of
              None \<Rightarrow> None
            | Some ls' \<Rightarrow> Some ([], ls'))
      else Some (pending, ls))"

text \<open>The \<^verbatim>\<open>for await\<close> loop of handleSearch: the schedule, the index of the
  next event, the events, the buffer, the updaters still queued, the lines.\<close>

fun consume_search ::
  "(nat \<Rightarrow> bool) \<Rightarrow> nat \<Rightarrow> StreamEvent list \<Rightarrow> string \<Rightarrow> updater list \<Rightarrow> Line list
   \<Rightarrow> (string \<times> updater list \<times> Line list) option" where
  "consume_search renders i [] streamedText pending ls = Some (streamedText, pending, ls)"
| "consume_search renders i (chunk t # rest) streamedText pending ls =
     (case render_or_wait (renders i) (streamedText @ t) (pending @ [ChunkUpdate]) ls of
        None \<Rightarrow> None
      | Some (pending', ls') \<Rightarrow>
          consume_search renders (Suc i) rest (streamedText @ t) pending' ls')"
| "consume_search renders i (sources_event srcs # rest) streamedText pending ls =
     (case render_or_wait (renders i) streamedText (pending @ [SourcesUpdate srcs]) ls of
        None \<Rightarrow> None
      | Some (pending', ls') \<Rightarrow>
          consume_search renders (Suc i) rest streamedText pending' ls')"

text \<open>The \<^verbatim>\<open>finally\<close> block: its update is queued last, and everything queued
  runs with the buffer of the finished stream.\<close>

definition finish_search :: "string \<Rightarrow> updater list \<Rightarrow> Line list \<Rightarrow> Line list option" where
  "finish_search streamedText pending ls =
     (case run_updaters streamedText pending ls of
        None \<Rightarrow> None
      | Some ls' \<Rightarrow> set_last_text_if_output (Arr (split newline streamedText)) ls')"

definition handleSearch :: "env \<Rightarrow> string \<Rightarrow> state \<Rightarrow> outcome" where
  "handleSearch E prompt s =
     (let stream = searchWithGoogleStream E prompt;
          s1 = call_backend (SearchWithGoogleStream prompt)
                 (append_lines [mk_line OUTPUT (Str [])] (s\<lparr>isLoading := True\<rparr>))
      in case consume_search (rendersAfter E) 0 (fst stream) [] [] (lines s1) of
           None \<Rightarrow> Crash
         | Some (streamedText, pending, ls) \<Rightarrow>
             (case finish_search streamedText pending ls of
                None \<Rightarrow> Crash
              | Some ls' \<Rightarrow>
                  ended (snd stream) (s1\<lparr>lines := ls', isLoading := False\<rparr>)))"

section \<open>The document table\<close>

text \<open>\<^verbatim>\<open>{ ...prev, [name]: content }\<close>: an existing key keeps its place.\<close>

fun js_set :: "string \<Rightarrow> string \<Rightarrow> (string \<times> string) list \<Rightarrow> (string \<times> string) list" where
  "js_set k v [] = [(k, v)]"
| "js_set k v (p # ps) = (if fst p = k then (k, v) # ps else p # js_set k v ps)"

text \<open>The table is a plain object, so a read of a name it does not own falls
  through to \<^verbatim>\<open>Object.prototype\<close>.\<close>

definition object_prototype_keys :: "string list" where
  "object_prototype_keys =
     [''constructor'', ''__defineGetter__'', ''__defineSetter__'', ''hasOwnProperty'',
      ''__lookupGetter__'', ''__lookupSetter__'', ''isPrototypeOf'',
      ''propertyIsEnumerable'', ''toString'', ''valueOf'', ''__proto__'',
      ''toLocaleString'']"

definition js_get :: "(string \<times> string) list \<Rightarrow> string \<Rightarrow> jsval" where
  "js_get obj k =
     (case map_of obj k of
        Some v \<Rightarrow> JString v
      | None \<Rightarrow> if List.member object_prototype_keys k then JInherited else JUndefined)"

fun truthy_val :: "jsval \<Rightarrow> bool" where
  "truthy_val (JString v) = (v \<noteq> [])"
| "truthy_val JInherited = True"
| "truthy_val JUndefined = False"

text \<open>\<^verbatim>\<open>Object.keys\<close>: array-index keys (canonical decimal numbers below
  \<open>2\<^sup>3\<^sup>2 - 1\<close>) first, in ascending order, then the other keys in insertion order.\<close>

definition is_digit :: "char \<Rightarrow> bool" where
  "is_digit c = (48 \<le> (of_char c :: nat) \<and> (of_char c :: nat) \<le> 57)"

definition nat_of_digits :: "string \<Rightarrow> nat" where
  "nat_of_digits k = foldl (\<lambda>n c. 10 * n + (of_char c - 48)) 0 k"

definition is_array_index :: "string \<Rightarrow> bool" where
  "is_array_index k =
     (k \<noteq> [] \<and> list_all is_digit k \<and> (k = ''0'' \<or> take 1 k \<noteq> ''0'')
      \<and> nat_of_digits k < 4294967295)"

definition Object_keys :: "(string \<times> string) list \<Rightarrow> string list" where
  "Object_keys obj =
     sort_key nat_of_digits (filter is_array_index (map fst obj))
     @ filter (\<lambda>k. \<not> is_array_index k) (map fst obj)"

section \<open>Upload (handleFileChange)\<close>

text \<open>\<open>file_type\<close> is \<^verbatim>\<open>file.type\<close>, \<open>None\<close> when it is \<^verbatim>\<open>undefined\<close>.\<close>

record File =
  file_name :: string
  file_type :: "string option"

text \<open>A started \<^verbatim>\<open>FileReader\<close>: its callbacks close over the file and over the
  \<^verbatim>\<open>activeDoc\<close> of the render in which the change event arrived.\<close>

record FileReader =
  reader_file :: File
  reader_activeDoc :: "string option"

definition type_rejected :: "string option \<Rightarrow> bool" where
  "type_rejected ty =
     (truthy ty \<and> \<not> startsWith (str_of ty) ''text/'')"

text \<open>The argument is \<^verbatim>\<open>event.target.files?.[0]\<close>; the result is the new state and
  the reader that was started, if any.\<close>

definition handleFileChange :: "File option \<Rightarrow> state \<Rightarrow> state \<times> FileReader option" where
  "handleFileChange f s =
     (case f of
        None \<Rightarrow> (s, None)
      | Some file \<Rightarrow>
          if type_rejected (file_type file)
          then (append_lines
                  [mk_line ERROR (Str (''Error: Cannot upload file of type '' @ [CHR 0x27]
                     @ str_of (file_type file)
                     @ [CHR 0x27] @ ''. Please select a text file.''))] s,
                None)
          else (s, Some \<lparr> reader_file = file, reader_activeDoc = activeDoc s \<rparr>))"

definition reader_onload :: "FileReader \<Rightarrow> string \<Rightarrow> state \<Rightarrow> state" where
  "reader_onload r content s =
     (let name = file_name (reader_file r);
          s1 = s\<lparr>documents := js_set name content (documents s)\<rparr>;
          s2 = (if \<not> truthy (reader_activeDoc r) then s1\<lparr>activeDoc := Some name\<rparr> else s1)
      in append_lines
           [mk_line SYSTEM (Str (''Successfully loaded '' @ [CHR 0x27] @ name @ [CHR 0x27]
              @ '' ('' @ show_nat (length content) @ '' characters).'')),
            mk_line SYSTEM
              (Str ''Use `docs list` to see all files or `chatdoc` to start a conversation.'')]
           s2)"

definition reader_onerror :: "FileReader \<Rightarrow> string \<Rightarrow> state \<Rightarrow> state" where
  "reader_onerror r err s =
     append_lines [mk_line ERROR (Str (''Error reading file: '' @ err))] s"

section \<open>Constants (constants.ts)\<close>

definition USERNAME :: string where
  "USERNAME = ''praveen''"

definition HOSTNAME :: string where
  "HOSTNAME = ''gemini-os''"

definition COMMANDS :: "string list" where
  "COMMANDS =
     [''help'', ''ask'', ''chat'', ''search'', ''code'', ''image'', ''editimg'', ''video'',
      ''upload'', ''docs'', ''chatdoc'', ''neofetch'', ''date'', ''whoami'', ''about'',
      ''clear'']"

definition getCommandDescription :: "string \<Rightarrow> string" where
  "getCommandDescription command =
     (if command = ''help'' then ''Shows this help message.''
      else if command = ''ask'' then ''Ask the Gemini AI a single question.''
      else if command = ''chat'' then ''Enter a persistent chat session with the AI.''
      else if command = ''search'' then ''Ask AI with Google Search for up-to-date info.''
      else if command = ''code'' then ''Ask the AI Code Assistant a question.''
      else if command = ''image'' then ''Generate an image using AI.''
      else if command = ''editimg'' then ''Edit the last generated image with a new prompt.''
      else if command = ''video''
        then ''Generate a video using AI. (This may take a few minutes)''
      else if command = ''upload''
        then ''Upload a text document (.txt, .md, etc.) to chat with.''
      else if command = ''docs'' then ''Manage documents (use: docs <list|select|clear>).''
      else if command = ''chatdoc''
        then ''Enter a persistent chat session about the active document.''
      else if command = ''neofetch'' then ''Display system information.''
      else if command = ''date'' then ''Display the current date and time.''
      else if command = ''whoami'' then ''Display the current user.''
      else if command = ''about'' then ''Information about this terminal.''
      else if command = ''clear'' then ''Clears the terminal screen.''
      else [])"

definition HELP_TEXT :: "string list" where
  "HELP_TEXT =
     ''Available Commands:''
     # map (\<lambda>cmd. ''  '' @ padEnd 12 cmd @ '' - '' @ getCommandDescription cmd) COMMANDS"

definition ABOUT_TEXT :: "string list" where
  "ABOUT_TEXT =
     [''Gemini Modern Terminal v1.0.0'',
      ''A React and Tailwind CSS project.'',
      ''Powered by the Google Gemini API.'']"

text \<open>The lines of the template literal \<^verbatim>\<open>NEOFETCH_ASCII\<close>; it opens and closes
  with a line break, so the first and the last line are empty.\<close>

definition NEOFETCH_ROWS :: "string list" where
  "NEOFETCH_ROWS =
     [[],
      ''        ..,,;;;::;,..'',
      ''   ..,;'' @ [CHR 0x27, CHR 0x27] @ ''             '' @ [CHR 0x27, CHR 0x27, CHR 0x27] @ '';,..'',
      '' .,'' @ [CHR 0x27] @ ''                      '' @ [CHR 0x27] @ '',.'',
      '','' @ [CHR 0x27] @ ''                           '' @ [CHR 0x27] @ '','',
      ''/    ,gP'' @ replicate 9 (CHR 0x22) @ ''Ybg,           '' @ [CHR 0x5C],
      ''|   i'' @ [CHR 0x27] @ '' ,d'' @ [CHR 0x27, CHR 0x22] @ ''Y'' @ [CHR 0x27] @ ''  '' @ [CHR 0x27] @ ''Y'' @ [CHR 0x27, CHR 0x22] @ ''b, '' @ [CHR 0x27] @ ''i          |'',
      ''|   d'' @ [CHR 0x27] @ '' d'' @ [CHR 0x27] @ ''  '' @ [CHR 0x27] @ ''  '' @ [CHR 0x27] @ ''  '' @ [CHR 0x27] @ ''b '' @ [CHR 0x27] @ ''b          |'',
      ''|   8  8   '' @ [CHR 0x27] @ ''  '' @ [CHR 0x27] @ ''   8  8          |'',
      ''|   I, Y,        ,P ,I          |'',
      ''|   '' @ [CHR 0x27] @ ''b, '' @ [CHR 0x27] @ ''b,,,,,,d'' @ [CHR 0x27] @ '' ,d'' @ [CHR 0x27] @ ''          |'',
      ''|    '' @ [CHR 0x27] @ ''Y, '' @ [CHR 0x27, CHR 0x27] @ ''YPPY'' @ [CHR 0x27, CHR 0x27] @ '' ,P'' @ [CHR 0x27] @ ''           |'',
      [CHR 0x5C] @ ''     '' @ [CHR 0x27] @ ''b,      ,d'' @ [CHR 0x27] @ ''            /'',
      '' '' @ [CHR 0x27] @ '',      '' @ [CHR 0x27] @ ''YMMMMY'' @ [CHR 0x27] @ ''       ,'' @ [CHR 0x27],
      ''  '' @ [CHR 0x27] @ ''.                   .'' @ [CHR 0x27],
      ''    '' @ [CHR 0x27, CHR 0x27, CHR 0x27] @ '';,         ,;'' @ [CHR 0x27, CHR 0x27, CHR 0x27],
      ''        '' @ [CHR 0x27, CHR 0x27, CHR 0x27] @ '';;;;'' @ [CHR 0x27, CHR 0x27, CHR 0x27],
      []]"

fun unlines :: "string list \<Rightarrow> string" where
  "unlines [] = []"
| "unlines [x] = x"
| "unlines (x # y # ys) = x @ [newline] @ unlines (y # ys)"

definition NEOFETCH_ASCII :: string where
  "NEOFETCH_ASCII = unlines NEOFETCH_ROWS"

section \<open>Commands (processCommand)\<close>

definition tokens :: "string \<Rightarrow> string list" where
  "tokens commandStr = filter (\<lambda>w. w \<noteq> []) (split CHR '' '' (trim commandStr))"

text \<open>The \<^verbatim>\<open>setLines(prev => [...prev, ...outputLines])\<close> after the switch.\<close>

definition finish :: "Line list \<Rightarrow> state \<Rightarrow> outcome option" where
  "finish outputLines s = Some (Returns (append_lines outputLines s))"

definition cmd_chat :: "state \<Rightarrow> outcome option" where
  "cmd_chat s =
     (if isChatDocMode s
      then finish [mk_line ERROR
             (Str ''Already in document chat mode. Type `exit` to leave first.'')] s
      else finish [mk_line SYSTEM (Str ''Entered chat mode. Type 'exit' to leave.'')]
             (call_backend StartChat (s\<lparr>isChatMode := True\<rparr>)))"

definition cmd_ask :: "env \<Rightarrow> string list \<Rightarrow> state \<Rightarrow> outcome option" where
  "cmd_ask E args s =
     (let prompt = join args in
      if prompt = []
      then Some (Returns (append_lines [mk_line ERROR (Str ''Usage: ask <your question>'')] s))
      else Some (handleAsk E prompt s))"

definition cmd_search :: "env \<Rightarrow> string list \<Rightarrow> state \<Rightarrow> outcome option" where
  "cmd_search E args s =
     (let prompt = join args in
      if prompt = []
      then Some (Returns
             (append_lines [mk_line ERROR (Str ''Usage: search <your question>'')] s))
      else Some (handleSearch E prompt s))"

definition cmd_code :: "env \<Rightarrow> string list \<Rightarrow> state \<Rightarrow> outcome option" where
  "cmd_code E args s =
     (let prompt = join args in
      if prompt = []
      then finish [mk_line ERROR (Str ''Usage: code <your coding question>'')] s
      else
        (let aiResponse = generateCode E prompt;
             s1 = call_backend (GenerateCode prompt) (s\<lparr>isLoading := True\<rparr>)
         in finish
              ((if explanation aiResponse \<noteq> []
                then [mk_line OUTPUT (Arr (split newline (explanation aiResponse)))] else [])
               @ (if code aiResponse \<noteq> []
                  then [mk_line CODE (Str (code aiResponse))] else []))
              (s1\<lparr>isLoading := False\<rparr>)))"

definition cmd_image :: "env \<Rightarrow> string list \<Rightarrow> state \<Rightarrow> outcome option" where
  "cmd_image E args s =
     (let prompt = join args in
      if prompt = []
      then finish [mk_line ERROR (Str ''Usage: image <a description of the image>'')] s
      else
        (let base64Image = generateImage E prompt;
             s1 = call_backend (GenerateImage prompt) (s\<lparr>isLoading := True\<rparr>)
         in if startsWith base64Image ''Error:''
            then finish [mk_line ERROR (Str base64Image)] (s1\<lparr>isLoading := False\<rparr>)
            else finish [mk_line IMAGE (Arr [base64Image, prompt])]
                   (s1\<lparr>lastImage := Some base64Image, isLoading := False\<rparr>)))"

definition cmd_editimg :: "env \<Rightarrow> string list \<Rightarrow> state \<Rightarrow> outcome option" where
  "cmd_editimg E args s =
     (let prompt = join args in
      if prompt = []
      then finish [mk_line ERROR (Str ''Usage: editimg <your edit instruction>'')] s
      else if \<not> truthy (lastImage s)
      then finish [mk_line ERROR
             (Str ''No image to edit. Use the `image` command to generate one first.'')] s
      else
        (let response = editImage E (str_of (lastImage s)) prompt;
             s1 = call_backend (EditImage (str_of (lastImage s)) prompt)
                    (s\<lparr>isLoading := True\<rparr>);
             textLines =
               (if truthy (edited_text response)
                then [mk_line OUTPUT (Arr (split newline (str_of (edited_text response))))]
                else [])
         in if truthy (image response)
            then finish
                   (textLines @ [mk_line IMAGE (Arr [str_of (image response), prompt])])
                   (s1\<lparr>lastImage := image response, isLoading := False\<rparr>)
            else if \<not> truthy (edited_text response)
            then finish
                   (textLines
                    @ [mk_line ERROR (Str ''The AI did not return a valid response.'')])
                   (s1\<lparr>isLoading := False\<rparr>)
            else finish textLines (s1\<lparr>isLoading := False\<rparr>)))"

subsection \<open>video\<close>

definition pollMessages :: "string list" where
  "pollMessages =
     [''Still processing... The AI is animating the frames.'',
      ''Still processing... Polishing the final cut.'',
      ''Still processing... This is taking longer than usual, but we're still on it!'']"

text \<open>The \<^verbatim>\<open>while (!operation.done)\<close> loop. It yields the finished operation, or
  the value \<^verbatim>\<open>getVideosOperation\<close> threw; it has no value when the backend
  never reports \<^verbatim>\<open>done\<close>. The waits between polls are not modelled.\<close>

partial_function (option) poll ::
  "env \<Rightarrow> Operation \<Rightarrow> nat \<Rightarrow> state \<Rightarrow> ((exn + Operation) \<times> state) option" where
  "poll E operation pollCount s =
     (if done operation then Some (Inr operation, s)
      else
        (let message = pollMessages ! min pollCount (length pollMessages - 1);
             s1 = call_backend (GetVideosOperation operation)
                    (append_lines [mk_line SYSTEM (Str message)] s)
         in case getVideosOperation E pollCount operation of
              Inl e \<Rightarrow> Some (Inl e, s1)
            | Inr operation' \<Rightarrow> poll E operation' (pollCount + 1) s1))"

declare poll.simps [code]

text \<open>The \<^verbatim>\<open>catch\<close> block.\<close>

fun errorMessage :: "exn \<Rightarrow> string" where
  "errorMessage (ErrorObject message) = message"
| "errorMessage OtherThrown = ''An unknown error occurred during video generation.''"

definition video_catch :: "exn \<Rightarrow> state \<Rightarrow> state" where
  "video_catch error s =
     append_lines [mk_line ERROR (Str (''Error: '' @ errorMessage error))] s"

text \<open>After the loop: fetch the media when the finished operation carries a link.\<close>

definition media_url :: "env \<Rightarrow> Operation \<Rightarrow> string" where
  "media_url E operation =
     str_of (downloadLink operation) @ ''&key=''
     @ (case API_KEY E of Some k \<Rightarrow> k | None \<Rightarrow> ''undefined'')"

definition video_result :: "env \<Rightarrow> string \<Rightarrow> Operation \<Rightarrow> state \<Rightarrow> state" where
  "video_result E prompt operation s =
     (if truthy (downloadLink operation)
      then
        (let url = media_url E operation;
             s1 = call_backend (Fetch url)
                    (append_lines [mk_line SYSTEM
                       (Str ''Video generated! Downloading and preparing for playback...'')] s)
         in case fetchBlob E url of
              Inl e \<Rightarrow> video_catch e s1
            | Inr objectUrl \<Rightarrow> append_lines [mk_line VIDEO (Arr [objectUrl, prompt])] s1)
      else append_lines [mk_line ERROR (Str
             ''Video generation finished, but no video was returned. Please try a different prompt.'')]
             s)"

text \<open>The \<^verbatim>\<open>try\<close> and \<^verbatim>\<open>catch\<close> blocks.\<close>

definition video_try :: "env \<Rightarrow> string \<Rightarrow> state \<Rightarrow> state option" where
  "video_try E prompt s =
     (let s1 = call_backend (GenerateVideo prompt) s in
      case generateVideo E prompt of
        StartThrows e \<Rightarrow> Some (video_catch e s1)
      | StartError operationResult \<Rightarrow>
          Some ((append_lines [mk_line ERROR (Str operationResult)] s1)\<lparr>isLoading := False\<rparr>)
      | StartOperation operation \<Rightarrow>
          (case poll E operation 0 s1 of
             None \<Rightarrow> None
           | Some (Inl e, s2) \<Rightarrow> Some (video_catch e s2)
           | Some (Inr operation', s2) \<Rightarrow> Some (video_result E prompt operation' s2)))"

text \<open>Before the \<^verbatim>\<open>try\<close>: the busy flag and the two notices.\<close>

definition video_begin :: "string \<Rightarrow> state \<Rightarrow> state" where
  "video_begin prompt s =
     append_lines
       [mk_line SYSTEM (Str (''Kicking off video generation for: '' @ [CHR 0x22]
          @ prompt @ [CHR 0x22])),
        mk_line SYSTEM (Str
          ''This can take a few minutes. Status will be checked periodically.'')]
       (s\<lparr>isLoading := True\<rparr>)"

text \<open>The whole case: the \<^verbatim>\<open>finally\<close> block clears the busy flag.\<close>

definition cmd_video :: "env \<Rightarrow> string list \<Rightarrow> state \<Rightarrow> outcome option" where
  "cmd_video E args s =
     (let prompt = join args in
      if prompt = []
      then Some (Returns (append_lines
             [mk_line ERROR (Str ''Usage: video <a description of the video>'')] s))
      else
        (case video_try E prompt (video_begin prompt s) of
           None \<Rightarrow> None
         | Some s' \<Rightarrow> Some (Returns (s'\<lparr>isLoading := False\<rparr>))))"

subsection \<open>docs, chatdoc, neofetch\<close>

definition docs_list :: "state \<Rightarrow> Line list" where
  "docs_list s =
     (let docKeys = Object_keys (documents s) in
      if docKeys = [] then [mk_line OUTPUT (Str ''No documents uploaded.'')]
      else [mk_line OUTPUT (Str ''Uploaded documents:''),
            mk_line OUTPUT (Arr (map (\<lambda>name.
              ''  '' @ (if Some name = activeDoc s then ''*'' else '' '') @ '' '' @ name)
              docKeys))])"

definition docs_select :: "string list \<Rightarrow> state \<Rightarrow> outcome option" where
  "docs_select rest s =
     (case rest of
        [] \<Rightarrow> finish [mk_line ERROR (Str ''Usage: docs select <filename>'')] s
      | docToSelect # _ \<Rightarrow>
          if truthy_val (js_get (documents s) docToSelect)
          then finish [mk_line SYSTEM (Str (''Active document set to '' @ [CHR 0x27]
                         @ docToSelect @ [CHR 0x27] @ ''.''))]
                 (s\<lparr>activeDoc := Some docToSelect\<rparr>)
          else finish [mk_line ERROR (Str (''Document '' @ [CHR 0x27] @ docToSelect
                         @ [CHR 0x27] @ '' not found.''))] s)"

definition cmd_docs :: "string list \<Rightarrow> state \<Rightarrow> outcome option" where
  "cmd_docs args s =
     (case args of
        [] \<Rightarrow> finish [mk_line ERROR (Str ''Usage: docs <list|select|clear>'')] s
      | subCommand # rest \<Rightarrow>
          if subCommand = ''list'' then finish (docs_list s) s
          else if subCommand = ''select'' then docs_select rest s
          else if subCommand = ''clear''
          then finish [mk_line SYSTEM (Str ''All documents cleared.'')]
                 (s\<lparr>documents := [], activeDoc := None\<rparr>)
          else finish [mk_line ERROR (Str ''Usage: docs <list|select|clear>'')] s)"

definition cmd_chatdoc :: "string list \<Rightarrow> state \<Rightarrow> outcome option" where
  "cmd_chatdoc args s =
     (if isChatMode s
      then finish [mk_line ERROR
             (Str ''Already in regular chat mode. Type `exit` to leave first.'')] s
      else if \<not> truthy (activeDoc s)
      then finish [mk_line ERROR (Str
             ''No active document. Use `docs select <filename>` or `upload` a new file.'')] s
      else if args \<noteq> []
      then finish [mk_line ERROR (Str
             ''Usage: type `chatdoc` and press Enter to start a conversation.'')] s
      else finish [mk_line SYSTEM (Str (''Entered chat mode for '' @ [CHR 0x27]
                     @ str_of (activeDoc s) @ [CHR 0x27] @ ''. Type 'exit' to leave.''))]
             ((call_backend (StartChatDoc (js_get (documents s) (str_of (activeDoc s)))) s)
                \<lparr>isChatDocMode := True\<rparr>))"

definition neofetch_row :: "env \<Rightarrow> string \<times> nat \<Rightarrow> string" where
  "neofetch_row E p =
     (let line = fst p; index = snd p in
      if index = 2 then line @ ''    '' @ USERNAME @ ''@'' @ HOSTNAME
      else if index = 3 then line @ ''    -----------------''
      else if index = 4 then line @ ''    OS: Gemini Web Terminal''
      else if index = 5 then line @ ''    Kernel: React '' @ reactVersion E
      else if index = 6 then line @ ''    Shell: TypeScript''
      else if index = 7 then line @ ''    Theme: DarkModern''
      else line)"

definition neofetchLines :: "env \<Rightarrow> string list" where
  "neofetchLines E =
     (let rows = split newline NEOFETCH_ASCII
      in map (neofetch_row E) (zip rows [0 ..< length rows]))"

subsection \<open>The dispatch\<close>

text \<open>\<open>None\<close>: the command never returns (a video poll without end).\<close>

definition processCommand :: "env \<Rightarrow> string \<Rightarrow> state \<Rightarrow> outcome option" where
  "processCommand E commandStr s =
     (case tokens commandStr of
        [] \<Rightarrow> Some (Returns s)
      | command # args \<Rightarrow>
          (let c = toLowerCase command in
           if c = ''help'' then finish [mk_line OUTPUT (Arr HELP_TEXT)] s
           else if c = ''clear'' then Some (Returns (s\<lparr>lines := []\<rparr>))
           else if c = ''chat'' then cmd_chat s
           else if c = ''ask'' then cmd_ask E args s
           else if c = ''search'' then cmd_search E args s
           else if c = ''code'' then cmd_code E args s
           else if c = ''image'' then cmd_image E args s
           else if c = ''editimg'' then cmd_editimg E args s
           else if c = ''video'' then cmd_video E args s
           else if c = ''upload'' then finish [] (call_backend ClickFileInput s)
           else if c = ''docs'' then cmd_docs args s
           else if c = ''chatdoc'' then cmd_chatdoc args s
           else if c = ''date'' then finish [mk_line OUTPUT (Str (dateString E))] s
           else if c = ''whoami'' then finish [mk_line OUTPUT (Str USERNAME)] s
           else if c = ''about'' then finish [mk_line OUTPUT (Arr ABOUT_TEXT)] s
           else if c = ''neofetch'' then finish [mk_line OUTPUT (Arr (neofetchLines E))] s
           else finish [mk_line ERROR (Str (''command not found: '' @ command))] s))"

section \<open>Submission (handleSubmit)\<close>

text \<open>The \<^verbatim>\<open>setInputValue('')\<close> after the awaited handler: skipped when the
  handler rejects.\<close>

fun clear_input :: "outcome option \<Rightarrow> outcome option" where
  "clear_input (Some (Returns s)) = Some (Returns (s\<lparr>inputValue := []\<rparr>))"
| "clear_input r = r"

definition handleSubmit :: "env \<Rightarrow> state \<Rightarrow> outcome option" where
  "handleSubmit E s =
     (let s0 = (if suggestions s \<noteq> [] then s\<lparr>suggestions := []\<rparr> else s) in
      if isLoading s \<or> isListening s then Some (Returns s0)
      else
        (let command = trim (inputValue s);
             inChat = (isChatMode s \<or> isChatDocMode s);
             s1 = append_lines [mk_line (if inChat then SYSTEM else COMMAND) (Str command)] s0
         in if command = [] \<and> inChat then Some (Returns s1)
            else if command = [] then Some (Returns (s1\<lparr>inputValue := []\<rparr>))
            else if isChatMode s then clear_input (Some (handleChat E command s1))
            else if isChatDocMode s
            then clear_input (Some (handleChatDocConversation E command s1))
            else clear_input
                   (processCommand E command
                      (s1\<lparr>commandHistory := command # commandHistory s,
                          historyIndex := - 1\<rparr>))))"

definition handleInputChange :: "string \<Rightarrow> state \<Rightarrow> state" where
  "handleInputChange v s =
     (let s1 = s\<lparr>inputValue := v\<rparr> in
      if suggestions s \<noteq> [] then s1\<lparr>suggestions := []\<rparr> else s1)"

section \<open>Keys (handleKeyDown)\<close>

datatype key = ArrowUp | ArrowDown | Tab | OtherKey

text \<open>\<^verbatim>\<open>xs[i]\<close>: \<open>None\<close> is \<^verbatim>\<open>undefined\<close>, the read outside the array.\<close>

definition js_nth :: "'a list \<Rightarrow> int \<Rightarrow> 'a option" where
  "js_nth xs i = (if 0 \<le> i \<and> i < int (length xs) then Some (xs ! nat i) else None)"

text \<open>\<^verbatim>\<open>setHistoryIndex(newIndex); setInputValue(commandHistory[newIndex])\<close>. The
  input value is a string in this model: there is no next state when the read is
  \<^verbatim>\<open>undefined\<close>.\<close>

definition recall :: "int \<Rightarrow> state \<Rightarrow> state option" where
  "recall newIndex s =
     (case js_nth (commandHistory s) newIndex of
        None \<Rightarrow> None
      | Some c \<Rightarrow> Some (s\<lparr>historyIndex := newIndex, inputValue := c\<rparr>))"

definition complete :: "state \<Rightarrow> state" where
  "complete s =
     (let currentInput = (case split CHR '' '' (trim (inputValue s)) of [] \<Rightarrow> [] | w # _ \<Rightarrow> w)
      in if currentInput = [] then s
         else (case filter (\<lambda>cmd. startsWith cmd currentInput) COMMANDS of
                 [] \<Rightarrow> s
               | [m] \<Rightarrow> s\<lparr>inputValue := m @ '' '', suggestions := []\<rparr>
               | m # m' # ms \<Rightarrow> s\<lparr>suggestions := m # m' # ms\<rparr>))"

definition handleKeyDown :: "key \<Rightarrow> state \<Rightarrow> state option" where
  "handleKeyDown k s =
     (let inAnyChatMode = (isChatMode s \<or> isChatDocMode s) in
      if k = ArrowUp \<and> \<not> inAnyChatMode
      then (if historyIndex s < int (length (commandHistory s)) - 1
            then recall (historyIndex s + 1) s
            else Some s)
      else if k = ArrowDown \<and> \<not> inAnyChatMode
      then (if historyIndex s > 0
            then recall (historyIndex s - 1) s
            else Some (s\<lparr>historyIndex := - 1, inputValue := []\<rparr>))
      else if k = Tab \<and> \<not> inAnyChatMode then Some (complete s)
      else Some s)"

section \<open>Speech input\<close>

text \<open>The argument of handleToggleListening tells whether the browser has speech
  recognition (\<^verbatim>\<open>recognitionRef.current\<close> is set).\<close>

definition handleToggleListening :: "bool \<Rightarrow> state \<Rightarrow> state" where
  "handleToggleListening supported s =
     (if \<not> supported then s
      else if isListening s then s
      else s\<lparr>inputValue := []\<rparr>)"

definition recognition_onerror :: "string \<Rightarrow> state \<Rightarrow> state" where
  "recognition_onerror error s =
     (let errorText =
        (if error = ''not-allowed'' \<or> error = ''service-not-allowed''
         then ''Microphone access denied. Please allow microphone permissions in your browser settings to use this feature.''
         else ''Speech recognition error: '' @ error @ ''. Please try again.'')
      in append_lines [mk_line ERROR (Str errorText)] s)"

section \<open>Sessions\<close>

text \<open>The first render. \<^verbatim>\<open>WELCOME_LINES\<close> is a parameter: its banner is drawn with
  characters outside the Latin-1 range.\<close>

definition initial_state :: "Line list \<Rightarrow> state" where
  "initial_state WELCOME_LINES =
     \<lparr> lines = WELCOME_LINES, commandHistory = [], historyIndex = - 1, inputValue = [],
       suggestions = [], isLoading = False, isChatMode = False, isChatDocMode = False,
       isListening = False, documents = [], activeDoc = None, lastImage = None,
       trace = [] \<rparr>"

text \<open>What can happen to a session. A submission carries the answers the backend
  gives during it; a chosen file carries what reading it gives (the error, or the
  content). One event is handled to its end before the next.\<close>

datatype event =
    Submit env
  | InputChange string
  | KeyDown key
  | FileChosen "File option" "string + string"
  | ToggleListening bool
  | RecognitionStart
  | RecognitionEnd
  | RecognitionError string
  | RecognitionResult string

fun after :: "outcome option \<Rightarrow> state option" where
  "after (Some (Returns s)) = Some s"
| "after (Some (Throws e s)) = Some s"
| "after (Some Crash) = None"
| "after None = None"

fun step :: "event \<Rightarrow> state \<Rightarrow> state option" where
  "step (Submit E) s = after (handleSubmit E s)"
| "step (InputChange v) s = Some (handleInputChange v s)"
| "step (KeyDown k) s = handleKeyDown k s"
| "step (FileChosen f r) s =
     (case handleFileChange f s of
        (s1, None) \<Rightarrow> Some s1
      | (s1, Some reader) \<Rightarrow>
          (case r of
             Inl err \<Rightarrow> Some (reader_onerror reader err s1)
           | Inr content \<Rightarrow> Some (reader_onload reader content s1)))"
| "step (ToggleListening supported) s = Some (handleToggleListening supported s)"
| "step RecognitionStart s = Some (s\<lparr>isListening := True\<rparr>)"
| "step RecognitionEnd s = Some (s\<lparr>isListening := False\<rparr>)"
| "step (RecognitionError error) s = Some (recognition_onerror error s)"
| "step (RecognitionResult transcript) s = Some (s\<lparr>inputValue := transcript\<rparr>)"

fun run :: "event list \<Rightarrow> state \<Rightarrow> state option" where
  "run [] s = Some s"
| "run (e # es) s = (case step e s of None \<Rightarrow> None | Some s' \<Rightarrow> run es s')"

text \<open>Typing a line and pressing Enter.\<close>

definition enter :: "env \<Rightarrow> string \<Rightarrow> event list" where
  "enter E v = [InputChange v, Submit E]"

section \<open>Reading outcomes\<close>

fun state_of :: "outcome \<Rightarrow> state option" where
  "state_of (Returns s) = Some s"
| "state_of (Throws e s) = Some s"
| "state_of Crash = None"

definition errors :: "Line list \<Rightarrow> Line list" where
  "errors ls = filter (\<lambda>l. type l = ERROR) ls"

text \<open>Of a search stream: the text of an event, whether it is a chunk, and the
  Sources lines its sources events give.\<close>

fun chunk_text :: "StreamEvent \<Rightarrow> string" where
  "chunk_text (chunk t) = t"
| "chunk_text (sources_event srcs) = []"


fun sources_lines :: "StreamEvent list \<Rightarrow> Line list" where
  "sources_lines [] = []"
| "sources_lines (chunk t # rest) = sources_lines rest"
| "sources_lines (sources_event srcs # rest) = sources_line srcs # sources_lines rest"

text \<open>Of queued updaters: the Sources lines they will append.\<close>

fun queued_sources :: "updater list \<Rightarrow> Line list" where
  "queued_sources [] = []"
| "queued_sources (ChunkUpdate # us) = queued_sources us"
| "queued_sources (SourcesUpdate srcs # us) = sources_line srcs # queued_sources us"

text \<open>Of a search stream and a schedule: the text the Output line is left with.
  It grows with the events until the first render that comes with or after the
  first sources event; \<open>seen\<close> tells whether a sources event has been
  consumed.\<close>

fun shown_text :: "(nat \<Rightarrow> bool) \<Rightarrow> nat \<Rightarrow> bool \<Rightarrow> StreamEvent list \<Rightarrow> string" where
  "shown_text renders i seen [] = []"
| "shown_text renders i seen (chunk t # rest) =
     t @ (if seen \<and> renders i then [] else shown_text renders (Suc i) seen rest)"
| "shown_text renders i seen (sources_event srcs # rest) =
     (if renders i then [] else shown_text renders (Suc i) True rest)"

text \<open>Of the backend: the poll loop that starts at this operation and this
  counter ends within n polls, by a finished operation or by an exception.\<close>

fun ends_within :: "env \<Rightarrow> Operation \<Rightarrow> nat \<Rightarrow> nat \<Rightarrow> bool" where
  "ends_within E operation pollCount 0 = done operation"
| "ends_within E operation pollCount (Suc n) =
     (if done operation then True
      else (case getVideosOperation E pollCount operation of
              Inl e \<Rightarrow> True
            | Inr operation' \<Rightarrow> ends_within E operation' (pollCount + 1) n))"

section \<open>A concrete backend\<close>

text \<open>One backend to run the handlers on: the one-shot stream yields three
  fragments, the chat stream raises after two, the search stream yields a chunk
  after its sources, with a render after every event, and the video operation is
  done at the third poll.\<close>

definition demo_source :: Source where
  "demo_source = \<lparr> title = ''Example'', uri = ''https://example.org'' \<rparr>"

definition demo_poll :: "nat \<Rightarrow> Operation \<Rightarrow> exn + Operation" where
  "demo_poll n operation =
     (if n < 2 then Inr operation
      else Inr \<lparr> done = True, downloadLink = Some ''https://example.org/v'' \<rparr>)"

definition demo_backend :: env where
  "demo_backend =
     \<lparr> askGeminiStream = (\<lambda>p. ([''Hel'', ''lo'' @ [newline] @ ''Wor'', ''ld''], None)),
       sendChatMessageStream = (\<lambda>p. ([''par'', ''tial''], Some (ErrorObject ''reset''))),
       sendChatDocMessageStream = (\<lambda>p. ([''ok''], None)),
       searchWithGoogleStream =
         (\<lambda>p. ([chunk ''a'', sources_event [demo_source], chunk ''b''], None)),
       generateCode = (\<lambda>p. \<lparr> explanation = ''e'', code = ''c'' \<rparr>),
       generateImage = (\<lambda>p. ''iVBOR''),
       editImage = (\<lambda>i p. \<lparr> image = None, edited_text = None \<rparr>),
       generateVideo = (\<lambda>p. StartOperation \<lparr> done = False, downloadLink = None \<rparr>),
       getVideosOperation = demo_poll,
       fetchBlob = (\<lambda>u. Inr ''blob:1''),
       API_KEY = None,
       dateString = ''Tue Nov 03 2026'',
       reactVersion = ''19.0.0'',
       rendersAfter = (\<lambda>n. True) \<rparr>"

text \<open>The same backend without its key: generateVideo answers with an error
  string.\<close>

definition keyless_backend :: env where
  "keyless_backend =
     demo_backend\<lparr>generateVideo := (\<lambda>p. StartError ''Error: API_KEY is not configured.'')\<rparr>"


text \<open>The same backend when the API fails: generateImage and editImage answer
  with the message their \<^verbatim>\<open>catch\<close> blocks build.\<close>

definition failing_api_backend :: env where
  "failing_api_backend =
     demo_backend
       \<lparr>generateImage := (\<lambda>p. ''Gemini API Error: boom''),
        editImage := (\<lambda>i p. \<lparr> image = None, edited_text = Some ''Gemini API Error: boom'' \<rparr>)\<rparr>"

definition failed_image_then_editimg :: "event list" where
  "failed_image_then_editimg =
     enter failing_api_backend ''image a cat''
     @ enter failing_api_backend ''editimg make it blue''"

text \<open>Two text files, and a selection of an inherited name before the first
  upload.\<close>

definition file_a :: File where
  "file_a = \<lparr> file_name = ''a.txt'', file_type = Some ''text/plain'' \<rparr>"

definition file_b :: File where
  "file_b = \<lparr> file_name = ''b.txt'', file_type = Some ''text/plain'' \<rparr>"

definition select_then_first_upload :: "event list" where
  "select_then_first_upload =
     enter demo_backend ''docs select toString'' @ [FileChosen (Some file_a) (Inr ''x'')]"

text \<open>An upload and chatdoc: the session enters document chat.\<close>

definition enter_docchat :: "event list" where
  "enter_docchat =
     FileChosen (Some \<lparr> file_name = ''a.txt'', file_type = Some ''text/plain'' \<rparr>) (Inr ''x'')
     # enter demo_backend ''chatdoc''"

text \<open>Two uploads, the second of an empty file, and then a selection of the
  second.\<close>

definition select_empty_file :: "event list" where
  "select_empty_file =
     [FileChosen (Some \<lparr> file_name = ''b.txt'', file_type = Some ''text/plain'' \<rparr>) (Inr ''x''),
      FileChosen (Some \<lparr> file_name = ''a.txt'', file_type = Some ''text/plain'' \<rparr>) (Inr [])]
     @ enter demo_backend ''docs select a.txt''"

section \<open>Streaming: what the reply line holds at the end\<close>

lemma consume_concat:
  "ls \<noteq> [] \<Longrightarrow>
   \<exists>ls'. consume fs acc ls = Some (acc @ concat fs, ls') \<and> butlast ls' = butlast ls
     \<and> ls' \<noteq> [] \<and> type (last ls') = type (last ls) \<and> sources (last ls') = sources (last ls)"
proof (induction fs arbitrary: acc ls)
  case Nil
  then show ?case by simp
next
  case (Cons c fs)
  let ?l = "butlast ls @ [(last ls)\<lparr>text := Str (acc @ c)\<rparr>]"
  have step: "set_last_text (Str (acc @ c)) ls = Some ?l"
    using Cons.prems by (simp add: set_last_text_def)
  have "?l \<noteq> []" by simp
  from Cons.IH[OF this, of "acc @ c"] step show ?case by auto
qed

lemma stream_reply_result:
  "\<exists>s'. stream_reply c st s = ended (snd st) s'
     \<and> lines s' = lines s @ [mk_line OUTPUT (Arr (split newline (concat (fst st))))]
     \<and> \<not> isLoading s' \<and> trace s' = trace s @ [c]
     \<and> isChatMode s' = isChatMode s \<and> isChatDocMode s' = isChatDocMode s
     \<and> activeDoc s' = activeDoc s"
proof -
  let ?s1 = "call_backend c (append_lines [mk_line OUTPUT (Str [])] (s\<lparr>isLoading := True\<rparr>))"
  have l1: "lines ?s1 = lines s @ [mk_line OUTPUT (Str [])]"
    by (simp add: call_backend_def append_lines_def)
  then have ne: "lines ?s1 \<noteq> []" by simp
  from consume_concat[OF ne, of "fst st" "[]"]
  obtain ls' where c: "consume (fst st) [] (lines ?s1) = Some (concat (fst st), ls')"
    and b: "butlast ls' = lines s" and n: "ls' \<noteq> []"
    and t: "type (last ls') = OUTPUT" and so: "sources (last ls') = None"
    using l1 by (auto simp: mk_line_def)
  have fin: "set_last_text (Arr (split newline (concat (fst st)))) ls'
     = Some (lines s @ [mk_line OUTPUT (Arr (split newline (concat (fst st))))])"
    using b n t so by (simp add: set_last_text_def mk_line_def)
  let ?s' = "?s1\<lparr>lines := lines s @ [mk_line OUTPUT (Arr (split newline (concat (fst st))))],
                isLoading := False\<rparr>"
  have "stream_reply c st s = ended (snd st) ?s'"
    unfolding stream_reply_def Let_def c using fin by simp
  then show ?thesis
    by (intro exI[of _ ?s']) (simp add: call_backend_def append_lines_def)
qed

text \<open>
  Claim C2. Whatever finite sequence of fragments handleAsk, handleChat (on a
  message other than exit) or handleChatDocConversation (likewise) consumes, and
  whether the producer then completes or raises, the handler appends exactly one
  Output line, and at the end that line holds the concatenation of the fragments
  split at line breaks (for no fragments, the list of one empty string); the
  busy flag is cleared; a raising producer's exception leaves the handler. Two
  producers whose fragments concatenate to the same text leave the same lines.
\<close>

theorem streaming_finalization:
  assumes "toLowerCase message \<noteq> ''exit''"
  shows
    "(\<exists>s'. handleAsk E prompt s = ended (snd (askGeminiStream E prompt)) s'
        \<and> lines s' = lines s
             @ [mk_line OUTPUT (Arr (split newline (concat (fst (askGeminiStream E prompt)))))]
        \<and> \<not> isLoading s')
     \<and> (\<exists>s'. handleChat E message s = ended (snd (sendChatMessageStream E message)) s'
        \<and> lines s' = lines s
             @ [mk_line OUTPUT
                  (Arr (split newline (concat (fst (sendChatMessageStream E message)))))]
        \<and> \<not> isLoading s')
     \<and> (\<exists>s'. handleChatDocConversation E message s
                = ended (snd (sendChatDocMessageStream E message)) s'
        \<and> lines s' = lines s
             @ [mk_line OUTPUT
                  (Arr (split newline (concat (fst (sendChatDocMessageStream E message)))))]
        \<and> \<not> isLoading s')
     \<and> (\<forall>c c' st st'. concat (fst st) = concat (fst st') \<longrightarrow>
          map_option lines (state_of (stream_reply c st s))
          = map_option lines (state_of (stream_reply c' st' s)))
     \<and> split newline (concat ([] :: string list)) = [[]]"
proof (intro conjI allI impI)
  show "\<exists>s'. handleAsk E prompt s = ended (snd (askGeminiStream E prompt)) s'
        \<and> lines s' = lines s
             @ [mk_line OUTPUT (Arr (split newline (concat (fst (askGeminiStream E prompt)))))]
        \<and> \<not> isLoading s'"
    unfolding handleAsk_def
    using stream_reply_result[of "AskGeminiStream prompt" "askGeminiStream E prompt" s]
    by auto
  show "\<exists>s'. handleChat E message s = ended (snd (sendChatMessageStream E message)) s'
        \<and> lines s' = lines s
             @ [mk_line OUTPUT
                  (Arr (split newline (concat (fst (sendChatMessageStream E message)))))]
        \<and> \<not> isLoading s'"
    unfolding handleChat_def
    using assms
      stream_reply_result[of "SendChatMessageStream message" "sendChatMessageStream E message" s]
    by auto
  show "\<exists>s'. handleChatDocConversation E message s
                = ended (snd (sendChatDocMessageStream E message)) s'
        \<and> lines s' = lines s
             @ [mk_line OUTPUT
                  (Arr (split newline (concat (fst (sendChatDocMessageStream E message)))))]
        \<and> \<not> isLoading s'"
    unfolding handleChatDocConversation_def
    using assms
      stream_reply_result[of "SendChatDocMessageStream message"
        "sendChatDocMessageStream E message" s]
    by auto
next
  fix c c' :: call and st st' :: text_stream
  assume eq: "concat (fst st) = concat (fst st')"
  obtain a where a: "stream_reply c st s = ended (snd st) a"
    "lines a = lines s @ [mk_line OUTPUT (Arr (split newline (concat (fst st))))]"
    using stream_reply_result by blast
  obtain b where b: "stream_reply c' st' s = ended (snd st') b"
    "lines b = lines s @ [mk_line OUTPUT (Arr (split newline (concat (fst st'))))]"
    using stream_reply_result by blast
  have "state_of (ended (snd st) a) = Some a" by (cases "snd st") simp_all
  moreover have "state_of (ended (snd st') b) = Some b" by (cases "snd st'") simp_all
  ultimately show "map_option lines (state_of (stream_reply c st s))
          = map_option lines (state_of (stream_reply c' st' s))"
    using a b eq by simp
next
  show "split newline (concat ([] :: string list)) = [[]]"
    by (simp add: split_def)
qed

theorem streaming_finalization_witness:
  "toLowerCase ''Why?'' \<noteq> ''exit''
   \<and> map_option lines (state_of (handleAsk demo_backend ''q'' (initial_state [])))
       = Some [mk_line OUTPUT (Arr [''Hello'', ''World''])]
   \<and> handleChat demo_backend ''Why?'' (initial_state [])
       = Throws (ErrorObject ''reset'')
           ((initial_state [])
              \<lparr>lines := [mk_line OUTPUT (Arr [''partial''])],
               trace := [SendChatMessageStream ''Why?'']\<rparr>)"
  using streaming_finalization [of "''Why?''" demo_backend "''q''" "initial_state []"]
  by (simp add: handleAsk_def handleChat_def stream_reply_def demo_backend_def
      initial_state_def toLowerCase_def lower_char_def call_backend_def append_lines_def
      set_last_text_def mk_line_def split_def newline_def)

section \<open>Dispatch\<close>

lemma clear_suggestions:
  "(if suggestions s \<noteq> [] then s\<lparr>suggestions := []\<rparr> else s) = s\<lparr>suggestions := []\<rparr>"
  by simp

lemma handleSubmit_normal:
  assumes "\<not> isLoading s" "\<not> isListening s" "\<not> isChatMode s" "\<not> isChatDocMode s"
    and "trim (inputValue s) \<noteq> []"
  shows "handleSubmit E s =
    clear_input (processCommand E (trim (inputValue s))
      (s\<lparr>suggestions := [],
         lines := lines s @ [mk_line COMMAND (Str (trim (inputValue s)))],
         commandHistory := trim (inputValue s) # commandHistory s,
         historyIndex := - 1\<rparr>))"
  using assms unfolding handleSubmit_def Let_def clear_suggestions
  by (simp add: append_lines_def)

lemma processCommand_unknown:
  assumes "tokens commandStr = command # args" "toLowerCase command \<notin> set COMMANDS"
  shows "processCommand E commandStr s
    = Some (Returns (append_lines
        [mk_line ERROR (Str (''command not found: '' @ command))] s))"
  using assms unfolding processCommand_def Let_def COMMANDS_def finish_def
  by simp

lemma tokens_a: "tokens ''a'' = [''a'']" "tokens ''b'' = [''b'']" "tokens ''c'' = [''c'']"
  by (simp_all add: tokens_def trim_def is_ws_def split_def)

lemma lower_abc: "toLowerCase ''a'' = ''a''" "toLowerCase ''b'' = ''b''" "toLowerCase ''c'' = ''c''"
  by (simp_all add: toLowerCase_def lower_char_def)

lemma trim_abc: "trim ''a'' = ''a''" "trim ''b'' = ''b''" "trim ''c'' = ''c''"
  by (simp_all add: trim_def is_ws_def)

lemma enter_unknown:
  assumes "\<not> isLoading s" "\<not> isListening s" "\<not> isChatMode s" "\<not> isChatDocMode s"
    and "trim v = v" "v \<noteq> []" "tokens v = command # args" "toLowerCase command \<notin> set COMMANDS"
  shows "run (enter E v @ es) s =
    run es (s\<lparr>suggestions := [],
         lines := lines s @ [mk_line COMMAND (Str v),
                             mk_line ERROR (Str (''command not found: '' @ command))],
         commandHistory := v # commandHistory s,
         historyIndex := - 1, inputValue := []\<rparr>)"
proof -
  let ?s1 = "s\<lparr>inputValue := v, suggestions := []\<rparr>"
  let ?s2 = "s\<lparr>suggestions := [],
         lines := lines s @ [mk_line COMMAND (Str v),
                             mk_line ERROR (Str (''command not found: '' @ command))],
         commandHistory := v # commandHistory s,
         historyIndex := - 1, inputValue := []\<rparr>"
  have s1: "handleInputChange v s = ?s1"
    by (simp add: handleInputChange_def Let_def)
  have "handleSubmit E ?s1 = clear_input (processCommand E v
      (?s1\<lparr>suggestions := [],
         lines := lines ?s1 @ [mk_line COMMAND (Str v)],
         commandHistory := v # commandHistory ?s1,
         historyIndex := - 1\<rparr>))"
    using handleSubmit_normal[of ?s1 E] assms by simp
  then have "handleSubmit E ?s1 = Some (Returns ?s2)"
    by (simp add: processCommand_unknown[OF assms(7,8)] append_lines_def)
  then show ?thesis
    by (simp add: enter_def s1)
qed

text \<open>
  Claim C7. From an empty history with the cursor at -1, in Normal mode and not
  busy, entering a, b and c and then pressing ArrowUp three times and ArrowDown
  once leaves b in the input field; the history holds the commands newest first.
\<close>

theorem history_recall:
  assumes "commandHistory s = []" "historyIndex s = - 1"
    and "\<not> isChatMode s" "\<not> isChatDocMode s" "\<not> isLoading s" "\<not> isListening s"
  shows "\<exists>s'. run (enter Ea ''a'' @ enter Eb ''b'' @ enter Ec ''c''
                   @ [KeyDown ArrowUp, KeyDown ArrowUp, KeyDown ArrowUp, KeyDown ArrowDown]) s
               = Some s'
           \<and> inputValue s' = ''b''
           \<and> commandHistory s' = [''c'', ''b'', ''a'']
           \<and> historyIndex s' = 1"
proof -
  have "run (enter Ea ''a'' @ enter Eb ''b'' @ enter Ec ''c''
                   @ [KeyDown ArrowUp, KeyDown ArrowUp, KeyDown ArrowUp, KeyDown ArrowDown]) s
     = run [KeyDown ArrowUp, KeyDown ArrowUp, KeyDown ArrowUp, KeyDown ArrowDown]
         (s\<lparr>suggestions := [],
            lines := lines s
              @ [mk_line COMMAND (Str ''a''), mk_line ERROR (Str ''command not found: a''),
                 mk_line COMMAND (Str ''b''), mk_line ERROR (Str ''command not found: b''),
                 mk_line COMMAND (Str ''c''), mk_line ERROR (Str ''command not found: c'')],
            commandHistory := [''c'', ''b'', ''a''], historyIndex := - 1, inputValue := []\<rparr>)"
    using assms
    by (simp add: enter_unknown[where command = "''a''" and args = "[]"]
        enter_unknown[where command = "''b''" and args = "[]"]
        enter_unknown[where command = "''c''" and args = "[]"]
        tokens_a lower_abc trim_abc COMMANDS_def)
  then show ?thesis
    using assms by (simp add: handleKeyDown_def recall_def js_nth_def)
qed

theorem history_recall_witness:
  "commandHistory (initial_state []) = [] \<and> historyIndex (initial_state []) = - 1
   \<and> map_option inputValue
        (run (enter demo_backend ''a'' @ enter demo_backend ''b'' @ enter demo_backend ''c''
              @ [KeyDown ArrowUp, KeyDown ArrowUp, KeyDown ArrowUp, KeyDown ArrowDown])
           (initial_state []))
       = Some ''b''"
  using history_recall [of "initial_state []" demo_backend demo_backend demo_backend]
  by (auto simp: initial_state_def)

text \<open>
  Claim C9. processCommand lowercases the command token before it dispatches: a
  token that lowercases to help prints the help text, one that lowercases to chat
  enters chat mode (outside document chat), and two command lines with the same
  arguments whose tokens lowercase to the same command do the same. A token that
  lowercases to none of the sixteen commands appends the Error line
  "command not found: " followed by the token as it was typed.
\<close>

theorem command_token_case:
  assumes "tokens commandStr = command # args"
  shows
    "(toLowerCase command = ''help'' \<longrightarrow>
        processCommand E commandStr s
        = Some (Returns (append_lines [mk_line OUTPUT (Arr HELP_TEXT)] s)))
     \<and> (toLowerCase command = ''chat'' \<and> \<not> isChatDocMode s \<longrightarrow>
        processCommand E commandStr s
        = Some (Returns (append_lines
            [mk_line SYSTEM (Str ''Entered chat mode. Type 'exit' to leave.'')]
            (call_backend StartChat (s\<lparr>isChatMode := True\<rparr>)))))
     \<and> (\<forall>commandStr' command'.
          tokens commandStr' = command' # args
          \<and> toLowerCase command' = toLowerCase command
          \<and> toLowerCase command \<in> set COMMANDS \<longrightarrow>
          processCommand E commandStr' s = processCommand E commandStr s)
     \<and> (toLowerCase command \<notin> set COMMANDS \<longrightarrow>
        processCommand E commandStr s
        = Some (Returns (append_lines
            [mk_line ERROR (Str (''command not found: '' @ command))] s)))"
proof (intro conjI allI impI)
  assume "toLowerCase command = ''help''"
  then show "processCommand E commandStr s
        = Some (Returns (append_lines [mk_line OUTPUT (Arr HELP_TEXT)] s))"
    using assms by (simp add: processCommand_def finish_def)
next
  assume "toLowerCase command = ''chat'' \<and> \<not> isChatDocMode s"
  then show "processCommand E commandStr s
        = Some (Returns (append_lines
            [mk_line SYSTEM (Str ''Entered chat mode. Type 'exit' to leave.'')]
            (call_backend StartChat (s\<lparr>isChatMode := True\<rparr>))))"
    using assms by (simp add: processCommand_def cmd_chat_def finish_def)
next
  fix commandStr' command'
  assume h: "tokens commandStr' = command' # args
          \<and> toLowerCase command' = toLowerCase command
          \<and> toLowerCase command \<in> set COMMANDS"
  then have "toLowerCase command \<in> set COMMANDS" by simp
  then consider "toLowerCase command = ''help''" | "toLowerCase command = ''ask''"
    | "toLowerCase command = ''chat''" | "toLowerCase command = ''search''"
    | "toLowerCase command = ''code''" | "toLowerCase command = ''image''"
    | "toLowerCase command = ''editimg''" | "toLowerCase command = ''video''"
    | "toLowerCase command = ''upload''" | "toLowerCase command = ''docs''"
    | "toLowerCase command = ''chatdoc''" | "toLowerCase command = ''neofetch''"
    | "toLowerCase command = ''date''" | "toLowerCase command = ''whoami''"
    | "toLowerCase command = ''about''" | "toLowerCase command = ''clear''"
    unfolding COMMANDS_def by auto
  then show "processCommand E commandStr' s = processCommand E commandStr s"
    using h assms by cases (simp_all add: processCommand_def)
next
  assume "toLowerCase command \<notin> set COMMANDS"
  then show "processCommand E commandStr s
        = Some (Returns (append_lines
            [mk_line ERROR (Str (''command not found: '' @ command))] s))"
    using assms by (rule processCommand_unknown[rotated])
qed

lemma tokens_examples:
  "tokens ''HELP'' = [''HELP'']" "tokens ''FooBar  x'' = [''FooBar'', ''x'']"
  "toLowerCase ''HELP'' = ''help''" "toLowerCase ''FooBar'' = ''foobar''"
  by code_simp+

theorem command_token_case_witness:
  "tokens ''HELP'' = [''HELP'']
   \<and> toLowerCase ''HELP'' = ''help''
   \<and> processCommand demo_backend ''HELP'' (initial_state [])
       = Some (Returns (append_lines [mk_line OUTPUT (Arr HELP_TEXT)] (initial_state [])))
   \<and> tokens ''FooBar  x'' = [''FooBar'', ''x'']
   \<and> toLowerCase ''FooBar'' \<notin> set COMMANDS
   \<and> processCommand demo_backend ''FooBar  x'' (initial_state [])
       = Some (Returns (append_lines
           [mk_line ERROR (Str ''command not found: FooBar'')] (initial_state [])))"
proof -
  have low: "toLowerCase ''FooBar'' \<notin> set COMMANDS"
    by (simp add: tokens_examples COMMANDS_def)
  have hl: "processCommand demo_backend ''HELP'' (initial_state [])
       = Some (Returns (append_lines [mk_line OUTPUT (Arr HELP_TEXT)] (initial_state [])))"
    using command_token_case [of "''HELP''" "''HELP''" "[]" demo_backend "initial_state []",
        THEN conjunct1]
    by (simp add: tokens_examples)
  have un: "processCommand demo_backend ''FooBar  x'' (initial_state [])
       = Some (Returns (append_lines
           [mk_line ERROR (Str ''command not found: FooBar'')] (initial_state [])))"
    using command_token_case [of "''FooBar  x''" "''FooBar''" "[''x'']" demo_backend
        "initial_state []", THEN conjunct2, THEN conjunct2, THEN conjunct2] low
    by (simp add: tokens_examples)
  show ?thesis
    using hl un low by (simp add: tokens_examples)
qed

text \<open>The guard of editimg, on the state: when lastImage is unset, whatever the
  prompt, processCommand appends exactly one Error line and changes nothing else;
  in particular the trace of backend calls is unchanged.\<close>

lemma editimg_guard:
  assumes "tokens commandStr = command # args" "toLowerCase command = ''editimg''"
    and "\<not> truthy (lastImage s)"
    and "msg = (if join args = [] then ''Usage: editimg <your edit instruction>''
                else ''No image to edit. Use the `image` command to generate one first.'')"
  shows "processCommand E commandStr s
           = Some (Returns (append_lines [mk_line ERROR (Str msg)] s))"
  using assms by (simp add: processCommand_def cmd_editimg_def finish_def Let_def)

text \<open>
  Claim C8 fails in the code. The state on which the guard decides is not the
  history the claim speaks of: the image case takes an answer of generateImage for
  an image unless it starts with \<^verbatim>\<open>Error:\<close>, and the message the service builds
  when the API call fails starts with \<^verbatim>\<open>Gemini API Error:\<close>. So after an image
  command that failed, the message is shown as an Image line and remembered as the
  last image; editimg, submitted in Normal mode with no successful image command
  before it, then finds lastImage set, appends no Error line and invokes editImage
  with the message as the image data.
\<close>

theorem editimg_after_failed_image:
  "generateImage failing_api_backend ''a cat'' = ''Gemini API Error: boom''
   \<and> \<not> startsWith ''Gemini API Error: boom'' ''Error:''
   \<and> map_option (\<lambda>s. (lastImage s, trace s, isChatMode s, isChatDocMode s))
        (run (enter failing_api_backend ''image a cat'') (initial_state []))
     = Some (Some ''Gemini API Error: boom'', [GenerateImage ''a cat''], False, False)
   \<and> map_option lines (run failed_image_then_editimg (initial_state []))
     = Some [mk_line COMMAND (Str ''image a cat''),
             mk_line IMAGE (Arr [''Gemini API Error: boom'', ''a cat'']),
             mk_line COMMAND (Str ''editimg make it blue''),
             mk_line OUTPUT (Arr [''Gemini API Error: boom''])]
   \<and> map_option trace (run failed_image_then_editimg (initial_state []))
     = Some [GenerateImage ''a cat'', EditImage ''Gemini API Error: boom'' ''make it blue'']
   \<and> map_option (errors \<circ> lines) (run failed_image_then_editimg (initial_state []))
     = Some []"
  by code_simp

section \<open>Upload\<close>

lemma map_of_js_set: "map_of (js_set k v ps) = (map_of ps)(k \<mapsto> v)"
  by (induction ps) auto




section \<open>Selecting a document\<close>

text \<open>
  Claim C5. The claim does not hold of the code: docs select tests the truthiness
  of \<^verbatim>\<open>documents[name]\<close>, not whether the name is a key. After uploading b.txt
  and then the empty file a.txt, the command docs select a.txt answers that a.txt
  is not found and leaves b.txt active, although a.txt is a key of the table. With
  an empty table, docs select toString finds the member the table inherits and
  makes toString the active document.
\<close>

theorem docs_select_tests_the_content:
  "map_option documents (run select_empty_file (initial_state []))
     = Some [(''b.txt'', ''x''), (''a.txt'', [])]
   \<and> map_option activeDoc (run select_empty_file (initial_state [])) = Some (Some ''b.txt'')
   \<and> map_option (drop 4) (map_option lines (run select_empty_file (initial_state [])))
     = Some [mk_line COMMAND (Str ''docs select a.txt''),
             mk_line ERROR (Str ''Document 'a.txt' not found.'')]
   \<and> map_option activeDoc (run (enter demo_backend ''docs select toString'') (initial_state []))
     = Some (Some ''toString'')"
  by code_simp

section \<open>Search: the text line and the Sources lines\<close>

lemma queued_sources_type: "l \<in> set (queued_sources us) \<Longrightarrow> type l = SOURCES"
  by (induction us rule: queued_sources.induct) (auto simp: sources_line_def)

lemma sources_lines_type: "l \<in> set (sources_lines evs) \<Longrightarrow> type l = SOURCES"
  by (induction evs rule: sources_lines.induct) (auto simp: sources_line_def)

lemma queued_sources_append:
  "queued_sources (us @ vs) = queued_sources us @ queued_sources vs"
  by (induction us rule: queued_sources.induct) simp_all

lemma last_after_queued:
  "ls \<noteq> [] \<Longrightarrow> type (last ls) = SOURCES
   \<Longrightarrow> ls @ queued_sources us \<noteq> [] \<and> type (last (ls @ queued_sources us)) = SOURCES"
  using queued_sources_type[of "last (queued_sources us)" us]
  by (cases "queued_sources us = []") auto

text \<open>Once the last line is a Sources line, updaters only append Sources lines,
  whatever the buffer.\<close>

lemma run_updaters_after_sources:
  "ls \<noteq> [] \<Longrightarrow> type (last ls) = SOURCES
   \<Longrightarrow> run_updaters b us ls = Some (ls @ queued_sources us)"
proof (induction us arbitrary: ls)
  case Nil
  then show ?case by simp
next
  case (Cons u us)
  show ?case
  proof (cases u)
    case ChunkUpdate
    with Cons show ?thesis by (simp add: set_last_text_if_output_def)
  next
    case (SourcesUpdate srcs)
    have "type (last (ls @ [sources_line srcs])) = SOURCES"
      by (simp add: sources_line_def)
    with SourcesUpdate Cons.prems Cons.IH[of "ls @ [sources_line srcs]"] show ?thesis
      by (simp add: set_last_text_if_output_def)
  qed
qed

text \<open>While the last line is the Output line: updaters of chunks alone rewrite
  its text; with an updater of sources among them, the first of these splits the
  buffer into the line, and the Sources lines follow.\<close>

lemma run_updaters_chunks:
  "ls \<noteq> [] \<Longrightarrow> type (last ls) = OUTPUT \<Longrightarrow> queued_sources us = [] \<Longrightarrow>
   \<exists>ls'. run_updaters b us ls = Some ls' \<and> ls' \<noteq> [] \<and> butlast ls' = butlast ls
     \<and> type (last ls') = OUTPUT \<and> (\<forall>x. (last ls')\<lparr>text := x\<rparr> = (last ls)\<lparr>text := x\<rparr>)"
proof (induction us arbitrary: ls)
  case Nil
  then show ?case by simp
next
  case (Cons u us)
  from Cons.prems(3) have u: "u = ChunkUpdate" and q: "queued_sources us = []"
    by (cases u; simp)+
  let ?l = "butlast ls @ [(last ls)\<lparr>text := Str b\<rparr>]"
  have st: "run_updater b u ls = Some ?l"
    using Cons.prems u by (simp add: set_last_text_if_output_def)
  have "?l \<noteq> []" "type (last ?l) = OUTPUT"
    using Cons.prems by simp_all
  from Cons.IH[OF this q] st show ?case by auto
qed

lemma run_updaters_with_sources:
  "ls \<noteq> [] \<Longrightarrow> type (last ls) = OUTPUT \<Longrightarrow> queued_sources us \<noteq> [] \<Longrightarrow>
   run_updaters b us ls
   = Some (butlast ls @ [(last ls)\<lparr>text := Arr (split newline b)\<rparr>] @ queued_sources us)"
proof (induction us arbitrary: ls)
  case Nil
  then show ?case by simp
next
  case (Cons u us)
  show ?case
  proof (cases u)
    case ChunkUpdate
    let ?l = "butlast ls @ [(last ls)\<lparr>text := Str b\<rparr>]"
    have st: "run_updater b u ls = Some ?l"
      using Cons.prems ChunkUpdate by (simp add: set_last_text_if_output_def)
    have l: "?l \<noteq> []" "type (last ?l) = OUTPUT"
      using Cons.prems by simp_all
    have q: "queued_sources us \<noteq> []"
      using Cons.prems(3) ChunkUpdate by simp
    from Cons.IH[OF l q] st ChunkUpdate show ?thesis by simp
  next
    case (SourcesUpdate srcs)
    let ?l = "butlast ls @ [(last ls)\<lparr>text := Arr (split newline b)\<rparr>] @ [sources_line srcs]"
    have st: "run_updater b u ls = Some ?l"
      using Cons.prems SourcesUpdate by (simp add: set_last_text_if_output_def)
    have l: "?l \<noteq> []" "type (last ?l) = SOURCES"
      by (simp_all add: sources_line_def)
    from run_updaters_after_sources[OF l, of b us] st SourcesUpdate show ?thesis by simp
  qed
qed

lemma finish_search_from_output:
  assumes "ls \<noteq> []" "type (last ls) = OUTPUT"
  shows "finish_search b us ls
   = Some (butlast ls @ [(last ls)\<lparr>text := Arr (split newline b)\<rparr>] @ queued_sources us)"
proof (cases "queued_sources us = []")
  case True
  from run_updaters_chunks[OF assms True, of b] obtain ls' where
    "run_updaters b us ls = Some ls'" "ls' \<noteq> []" "butlast ls' = butlast ls"
    "type (last ls') = OUTPUT" "(last ls')\<lparr>text := Arr (split newline b)\<rparr>
       = (last ls)\<lparr>text := Arr (split newline b)\<rparr>"
    by blast
  with True show ?thesis
    by (simp add: finish_search_def set_last_text_if_output_def)
next
  case False
  let ?l = "butlast ls @ [(last ls)\<lparr>text := Arr (split newline b)\<rparr>] @ queued_sources us"
  have "?l = (butlast ls @ [(last ls)\<lparr>text := Arr (split newline b)\<rparr>]) @ queued_sources us"
    by simp
  moreover have "type (last (queued_sources us)) = SOURCES"
    using False queued_sources_type[of "last (queued_sources us)" us] by simp
  ultimately have "type (last ?l) = SOURCES" using False by simp
  then show ?thesis
    using run_updaters_with_sources[OF assms False, of b]
    by (simp add: finish_search_def set_last_text_if_output_def)
qed

lemma finish_search_after_sources:
  assumes "ls \<noteq> []" "type (last ls) = SOURCES"
  shows "finish_search b us ls = Some (ls @ queued_sources us)"
  using run_updaters_after_sources[OF assms, of b us] last_after_queued[OF assms, of us]
  by (simp add: finish_search_def set_last_text_if_output_def)

lemma sources_of_event:
  "queued_sources [ChunkUpdate] @ sources_lines rest = sources_lines (chunk t # rest)"
  "queued_sources [SourcesUpdate srcs] @ sources_lines rest
     = sources_lines (sources_event srcs # rest)"
  by simp_all

text \<open>The loop from a state whose last line is a Sources line.\<close>

lemma consume_search_after_sources:
  "ls \<noteq> [] \<Longrightarrow> type (last ls) = SOURCES \<Longrightarrow>
   \<exists>pending' ls'.
     consume_search R i evs b pending ls = Some (b @ concat (map chunk_text evs), pending', ls')
     \<and> finish_search (b @ concat (map chunk_text evs)) pending' ls'
       = Some (ls @ queued_sources pending @ sources_lines evs)"
proof (induction evs arbitrary: i b pending ls)
  case Nil
  then show ?case by (simp add: finish_search_after_sources)
next
  case (Cons ev evs)
  obtain u b' where u: "u = (case ev of chunk t \<Rightarrow> ChunkUpdate | sources_event srcs \<Rightarrow> SourcesUpdate srcs)"
    and b': "b' = b @ chunk_text ev" by simp
  have step: "consume_search R i (ev # evs) b pending ls
      = (case render_or_wait (R i) b' (pending @ [u]) ls of
           None \<Rightarrow> None
         | Some (pending', ls') \<Rightarrow> consume_search R (Suc i) evs b' pending' ls')"
    unfolding u b' by (cases ev) (auto split: option.splits)
  have src: "sources_lines (ev # evs) = queued_sources [u] @ sources_lines evs"
    unfolding u by (cases ev) simp_all
  have cat: "b @ concat (map chunk_text (ev # evs)) = b' @ concat (map chunk_text evs)"
    unfolding b' by simp
  show ?case
  proof (cases "R i")
    case True
    let ?l = "ls @ queued_sources (pending @ [u])"
    have r: "render_or_wait (R i) b' (pending @ [u]) ls = Some ([], ?l)"
      using True run_updaters_after_sources[OF Cons.prems, of b' "pending @ [u]"]
      by (simp add: render_or_wait_def)
    from last_after_queued[OF Cons.prems, of "pending @ [u]"]
    have l: "?l \<noteq> []" "type (last ?l) = SOURCES" by simp_all
    from Cons.IH[OF l, of "Suc i" b' "[]"] obtain p' l' where
      c: "consume_search R (Suc i) evs b' [] ?l = Some (b' @ concat (map chunk_text evs), p', l')"
      and f: "finish_search (b' @ concat (map chunk_text evs)) p' l'
              = Some (?l @ queued_sources [] @ sources_lines evs)"
      by blast
    have e: "?l @ queued_sources [] @ sources_lines evs
             = ls @ queued_sources pending @ sources_lines (ev # evs)"
      unfolding src by (simp add: queued_sources_append)
    show ?thesis
      unfolding step r cat e[symmetric] using c f by simp
  next
    case False
    have r: "render_or_wait (R i) b' (pending @ [u]) ls = Some (pending @ [u], ls)"
      using False by (simp add: render_or_wait_def)
    from Cons.IH[OF Cons.prems, of "Suc i" b' "pending @ [u]"] obtain p' l' where
      c: "consume_search R (Suc i) evs b' (pending @ [u]) ls
            = Some (b' @ concat (map chunk_text evs), p', l')"
      and f: "finish_search (b' @ concat (map chunk_text evs)) p' l'
              = Some (ls @ queued_sources (pending @ [u]) @ sources_lines evs)"
      by blast
    have e: "ls @ queued_sources (pending @ [u]) @ sources_lines evs
             = ls @ queued_sources pending @ sources_lines (ev # evs)"
      unfolding src by (simp add: queued_sources_append)
    show ?thesis
      unfolding step r cat e[symmetric] using c f by simp
  qed
qed

text \<open>The loop from a state whose last line is the Output line; \<open>seen\<close> tells
  whether an updater of sources is queued.\<close>

lemma consume_search_from_output:
  "ls \<noteq> [] \<Longrightarrow> type (last ls) = OUTPUT \<Longrightarrow> seen = (queued_sources pending \<noteq> []) \<Longrightarrow>
   \<exists>pending' ls'.
     consume_search R i evs b pending ls = Some (b @ concat (map chunk_text evs), pending', ls')
     \<and> finish_search (b @ concat (map chunk_text evs)) pending' ls'
       = Some (butlast ls
               @ [(last ls)\<lparr>text := Arr (split newline (b @ shown_text R i seen evs))\<rparr>]
               @ queued_sources pending @ sources_lines evs)"
proof (induction evs arbitrary: i b pending ls seen)
  case Nil
  then show ?case by (simp add: finish_search_from_output)
next
  case (Cons ev evs)
  obtain u b' seen' where u: "u = (case ev of chunk t \<Rightarrow> ChunkUpdate | sources_event srcs \<Rightarrow> SourcesUpdate srcs)"
    and b': "b' = b @ chunk_text ev"
    and seen': "seen' = (queued_sources (pending @ [u]) \<noteq> [])" by simp
  have step: "consume_search R i (ev # evs) b pending ls
      = (case render_or_wait (R i) b' (pending @ [u]) ls of
           None \<Rightarrow> None
         | Some (pending', ls') \<Rightarrow> consume_search R (Suc i) evs b' pending' ls')"
    unfolding u b' by (cases ev) (auto split: option.splits)
  have src: "sources_lines (ev # evs) = queued_sources [u] @ sources_lines evs"
    unfolding u by (cases ev) simp_all
  have cat: "b @ concat (map chunk_text (ev # evs)) = b' @ concat (map chunk_text evs)"
    unfolding b' by simp
  have shown: "b @ shown_text R i seen (ev # evs)
      = b' @ (if seen' \<and> R i then [] else shown_text R (Suc i) seen' evs)"
    unfolding b' seen' u using Cons.prems(3)
    by (cases ev) (simp_all add: queued_sources_append)
  show ?case
  proof (cases "R i")
    case False
    have r: "render_or_wait (R i) b' (pending @ [u]) ls = Some (pending @ [u], ls)"
      using False by (simp add: render_or_wait_def)
    from Cons.IH[OF Cons.prems(1,2) seen', of "Suc i" b'] obtain p' l' where
      c: "consume_search R (Suc i) evs b' (pending @ [u]) ls
            = Some (b' @ concat (map chunk_text evs), p', l')"
      and f: "finish_search (b' @ concat (map chunk_text evs)) p' l'
              = Some (butlast ls
                 @ [(last ls)\<lparr>text := Arr (split newline (b' @ shown_text R (Suc i) seen' evs))\<rparr>]
                 @ queued_sources (pending @ [u]) @ sources_lines evs)"
      by blast
    have e: "butlast ls
                 @ [(last ls)\<lparr>text := Arr (split newline (b' @ shown_text R (Suc i) seen' evs))\<rparr>]
                 @ queued_sources (pending @ [u]) @ sources_lines evs
           = butlast ls
               @ [(last ls)\<lparr>text := Arr (split newline (b @ shown_text R i seen (ev # evs)))\<rparr>]
               @ queued_sources pending @ sources_lines (ev # evs)"
      unfolding src shown using False by (simp add: queued_sources_append)
    show ?thesis
      unfolding step r cat e[symmetric] using c f by simp
  next
    case True
    show ?thesis
    proof (cases seen')
      case s: True
      let ?l = "butlast ls @ [(last ls)\<lparr>text := Arr (split newline b')\<rparr>]
                @ queued_sources (pending @ [u])"
      have r: "render_or_wait (R i) b' (pending @ [u]) ls = Some ([], ?l)"
        using True s seen' run_updaters_with_sources[OF Cons.prems(1,2), of "pending @ [u]" b']
        by (simp add: render_or_wait_def)
      have "?l = (butlast ls @ [(last ls)\<lparr>text := Arr (split newline b')\<rparr>])
                @ queued_sources (pending @ [u])" by simp
      moreover have "type (last (queued_sources (pending @ [u]))) = SOURCES"
        using s seen' queued_sources_type[of "last (queued_sources (pending @ [u]))" "pending @ [u]"]
        by simp
      ultimately have l: "?l \<noteq> []" "type (last ?l) = SOURCES"
        using s seen' by simp_all
      from consume_search_after_sources[OF l, of R "Suc i" evs b' "[]"] obtain p' l' where
        c: "consume_search R (Suc i) evs b' [] ?l = Some (b' @ concat (map chunk_text evs), p', l')"
        and f: "finish_search (b' @ concat (map chunk_text evs)) p' l'
              = Some (?l @ queued_sources [] @ sources_lines evs)"
        by blast
      have e: "?l @ queued_sources [] @ sources_lines evs
           = butlast ls
               @ [(last ls)\<lparr>text := Arr (split newline (b @ shown_text R i seen (ev # evs)))\<rparr>]
               @ queued_sources pending @ sources_lines (ev # evs)"
        unfolding src shown using True s by (simp add: queued_sources_append)
      show ?thesis
        unfolding step r cat e[symmetric] using c f by simp
    next
      case s: False
      then have q: "queued_sources (pending @ [u]) = []" using seen' by simp
      from run_updaters_chunks[OF Cons.prems(1,2) q, of b'] obtain l where
        l: "run_updaters b' (pending @ [u]) ls = Some l" "l \<noteq> []" "butlast l = butlast ls"
        "type (last l) = OUTPUT" "\<forall>x. (last l)\<lparr>text := x\<rparr> = (last ls)\<lparr>text := x\<rparr>"
        by blast
      have r: "render_or_wait (R i) b' (pending @ [u]) ls = Some ([], l)"
        using True l(1) by (simp add: render_or_wait_def)
      have sq: "False = (queued_sources [] \<noteq> [])" by simp
      from Cons.IH[OF l(2) l(4) sq, of "Suc i" b'] obtain p' l' where
        c: "consume_search R (Suc i) evs b' [] l = Some (b' @ concat (map chunk_text evs), p', l')"
        and f: "finish_search (b' @ concat (map chunk_text evs)) p' l'
              = Some (butlast l
                 @ [(last l)\<lparr>text := Arr (split newline (b' @ shown_text R (Suc i) False evs))\<rparr>]
                 @ queued_sources [] @ sources_lines evs)"
        by blast
      have e: "butlast l
                 @ [(last l)\<lparr>text := Arr (split newline (b' @ shown_text R (Suc i) False evs))\<rparr>]
                 @ queued_sources [] @ sources_lines evs
           = butlast ls
               @ [(last ls)\<lparr>text := Arr (split newline (b @ shown_text R i seen (ev # evs)))\<rparr>]
               @ queued_sources pending @ sources_lines (ev # evs)"
        unfolding src shown using True s q l(3,5) by (simp add: queued_sources_append)
      show ?thesis
        unfolding step r cat e[symmetric] using c f by simp
    qed
  qed
qed

lemma handleSearch_result:
  "\<exists>s'. handleSearch E prompt s = ended (snd (searchWithGoogleStream E prompt)) s'
     \<and> lines s' = lines s
          @ [mk_line OUTPUT (Arr (split newline
               (shown_text (rendersAfter E) 0 False (fst (searchWithGoogleStream E prompt)))))]
          @ sources_lines (fst (searchWithGoogleStream E prompt))
     \<and> \<not> isLoading s' \<and> trace s' = trace s @ [SearchWithGoogleStream prompt]
     \<and> isChatMode s' = isChatMode s \<and> isChatDocMode s' = isChatDocMode s
     \<and> activeDoc s' = activeDoc s"
proof -
  let ?st = "searchWithGoogleStream E prompt"
  let ?s1 = "call_backend (SearchWithGoogleStream prompt)
               (append_lines [mk_line OUTPUT (Str [])] (s\<lparr>isLoading := True\<rparr>))"
  let ?ls = "lines s @ [mk_line OUTPUT (Str [])]"
  let ?final = "lines s
          @ [mk_line OUTPUT (Arr (split newline (shown_text (rendersAfter E) 0 False (fst ?st))))]
          @ sources_lines (fst ?st)"
  have l1: "lines ?s1 = ?ls"
    by (simp add: call_backend_def append_lines_def)
  have "?ls \<noteq> []" "type (last ?ls) = OUTPUT" "False = (queued_sources [] \<noteq> [])"
    by (simp_all add: mk_line_def)
  from consume_search_from_output[OF this, of "rendersAfter E" 0 "fst ?st" "[]"]
  obtain pending' ls' where
    c: "consume_search (rendersAfter E) 0 (fst ?st) [] [] ?ls
          = Some (concat (map chunk_text (fst ?st)), pending', ls')"
    and f: "finish_search (concat (map chunk_text (fst ?st))) pending' ls' = Some ?final"
    by (auto simp: mk_line_def)
  let ?s' = "?s1\<lparr>lines := ?final, isLoading := False\<rparr>"
  have "handleSearch E prompt s = ended (snd ?st) ?s'"
    unfolding handleSearch_def Let_def l1 c using f by simp
  then show ?thesis
    by (intro exI[of _ ?s']) (simp add: call_backend_def append_lines_def)
qed









section \<open>Video: the poll loop and the busy flag\<close>

text \<open>The loop only appends lines and calls.\<close>

lemma poll_frame:
  assumes "poll E operation pollCount s = Some (r, s')"
  shows "\<exists>ls tr. s' = s\<lparr>lines := lines s @ ls, trace := trace s @ tr\<rparr>"
proof -
  have "\<exists>ls tr. snd (r, s') = s\<lparr>lines := lines s @ ls, trace := trace s @ tr\<rparr>"
  proof (rule poll.raw_induct[OF _ assms], goal_cases)
    case prems: (1 poll' E operation pollCount s y)
    show ?case
    proof (cases "done operation")
      case True
      with prems(2) have "snd y = s" by auto
      then show ?thesis by (intro exI[of _ "[]"]) simp
    next
      case False
      let ?m = "mk_line SYSTEM (Str (pollMessages ! min pollCount (length pollMessages - 1)))"
      let ?s1 = "call_backend (GetVideosOperation operation) (append_lines [?m] s)"
      show ?thesis
      proof (cases "getVideosOperation E pollCount operation")
        case (Inl e)
        with False prems(2) have "snd y = ?s1" by (auto simp: Let_def)
        then show ?thesis
          by (intro exI[of _ "[?m]"] exI[of _ "[GetVideosOperation operation]"])
            (simp add: call_backend_def append_lines_def)
      next
        case (Inr operation')
        with False prems(2) have "poll' E operation' (pollCount + 1) ?s1 = Some y"
          by (auto simp: Let_def)
        from prems(1)[OF this] obtain ls tr
          where "snd y = ?s1\<lparr>lines := lines ?s1 @ ls, trace := trace ?s1 @ tr\<rparr>"
          by blast
        then show ?thesis
          by (intro exI[of _ "?m # ls"] exI[of _ "GetVideosOperation operation # tr"])
            (simp add: call_backend_def append_lines_def)
      qed
    qed
  qed
  then show ?thesis by simp
qed

text \<open>A backend that ends the loop within n polls makes it return.\<close>

lemma poll_returns:
  "ends_within E operation pollCount n \<Longrightarrow> \<exists>r. poll E operation pollCount s = Some r"
proof (induction n arbitrary: operation pollCount s)
  case 0
  then show ?case by (simp add: poll.simps)
next
  case (Suc n)
  show ?case
  proof (cases "done operation")
    case True
    then show ?thesis by (simp add: poll.simps)
  next
    case False
    show ?thesis
    proof (cases "getVideosOperation E pollCount operation")
      case (Inl e)
      with False show ?thesis by (subst poll.simps) (simp add: Let_def)
    next
      case (Inr operation')
      with False Suc.prems have "ends_within E operation' (pollCount + 1) n" by simp
      from Suc.IH[OF this] Inr False show ?thesis
        by (subst poll.simps) (simp add: Let_def)
    qed
  qed
qed

lemma processCommand_video:
  assumes "tokens commandStr = command # args" "toLowerCase command = ''video''"
  shows "processCommand E commandStr s = cmd_video E args s"
  using assms by (simp add: processCommand_def)

lemma cmd_video_prompt:
  "join args \<noteq> [] \<Longrightarrow>
   cmd_video E args s
   = (case video_try E (join args) (video_begin (join args) s) of
        None \<Rightarrow> None
      | Some s' \<Rightarrow> Some (Returns (s'\<lparr>isLoading := False\<rparr>)))"
  by (simp add: cmd_video_def Let_def)

text \<open>
  Claim C4. For the video command with a prompt: whenever the handler returns,
  the busy flag is false. An immediate backend failure (an error string) and an
  exception at submission each append one Error line after the two notices, and
  the only backend call is generateVideo: no poll is made. When the backend ends
  the poll loop within some number of polls, by a finished operation or by an
  exception, the handler returns. An exception while polling appends its Error
  line to what the loop had written, and so does an exception while fetching the
  media; a finished operation without a media reference appends one Error line,
  and one with a reference appends the Video line. In each case the busy flag is
  false at the end.
\<close>

theorem video_clears_busy:
  assumes "tokens commandStr = command # args" "toLowerCase command = ''video''"
    and "join args = prompt" "prompt \<noteq> []"
    and "s1 = call_backend (GenerateVideo prompt) (video_begin prompt s)"
  shows
    "(\<forall>r. processCommand E commandStr s = Some r \<longrightarrow>
        (\<exists>s'. r = Returns s' \<and> \<not> isLoading s'))
     \<and> (\<forall>msg. generateVideo E prompt = StartError msg \<longrightarrow>
        (\<exists>s'. processCommand E commandStr s = Some (Returns s') \<and> \<not> isLoading s'
           \<and> lines s' = lines (video_begin prompt s) @ [mk_line ERROR (Str msg)]
           \<and> trace s' = trace s @ [GenerateVideo prompt]))
     \<and> (\<forall>e. generateVideo E prompt = StartThrows e \<longrightarrow>
        (\<exists>s'. processCommand E commandStr s = Some (Returns s') \<and> \<not> isLoading s'
           \<and> lines s' = lines (video_begin prompt s)
                @ [mk_line ERROR (Str (''Error: '' @ errorMessage e))]
           \<and> trace s' = trace s @ [GenerateVideo prompt]))
     \<and> (\<forall>operation n.
          generateVideo E prompt = StartOperation operation \<and> ends_within E operation 0 n
          \<longrightarrow> (\<exists>s'. processCommand E commandStr s = Some (Returns s') \<and> \<not> isLoading s'))
     \<and> (\<forall>operation e s2.
          generateVideo E prompt = StartOperation operation
          \<and> poll E operation 0 s1 = Some (Inl e, s2) \<longrightarrow>
          (\<exists>s'. processCommand E commandStr s = Some (Returns s') \<and> \<not> isLoading s'
             \<and> lines s' = lines s2 @ [mk_line ERROR (Str (''Error: '' @ errorMessage e))]
             \<and> trace s' = trace s2))
     \<and> (\<forall>operation operation' s2 e.
          generateVideo E prompt = StartOperation operation
          \<and> poll E operation 0 s1 = Some (Inr operation', s2)
          \<and> truthy (downloadLink operation')
          \<and> fetchBlob E (media_url E operation') = Inl e \<longrightarrow>
          (\<exists>s'. processCommand E commandStr s = Some (Returns s') \<and> \<not> isLoading s'
             \<and> lines s' = lines s2
                  @ [mk_line SYSTEM
                       (Str ''Video generated! Downloading and preparing for playback...''),
                     mk_line ERROR (Str (''Error: '' @ errorMessage e))]))
     \<and> (\<forall>operation operation' s2 objectUrl.
          generateVideo E prompt = StartOperation operation
          \<and> poll E operation 0 s1 = Some (Inr operation', s2)
          \<and> truthy (downloadLink operation')
          \<and> fetchBlob E (media_url E operation') = Inr objectUrl \<longrightarrow>
          (\<exists>s'. processCommand E commandStr s = Some (Returns s') \<and> \<not> isLoading s'
             \<and> lines s' = lines s2
                  @ [mk_line SYSTEM
                       (Str ''Video generated! Downloading and preparing for playback...''),
                     mk_line VIDEO (Arr [objectUrl, prompt])]))
     \<and> (\<forall>operation operation' s2.
          generateVideo E prompt = StartOperation operation
          \<and> poll E operation 0 s1 = Some (Inr operation', s2)
          \<and> \<not> truthy (downloadLink operation') \<longrightarrow>
          (\<exists>s'. processCommand E commandStr s = Some (Returns s') \<and> \<not> isLoading s'
             \<and> lines s' = lines s2
                  @ [mk_line ERROR (Str
                       ''Video generation finished, but no video was returned. Please try a different prompt.'')]))"
proof -
  have pc: "processCommand E commandStr s
      = (case video_try E prompt (video_begin prompt s) of
           None \<Rightarrow> None
         | Some s' \<Rightarrow> Some (Returns (s'\<lparr>isLoading := False\<rparr>)))"
    using processCommand_video[OF assms(1,2)] cmd_video_prompt[of args E s] assms(3,4)
    by simp
  have t1: "trace s1 = trace s @ [GenerateVideo prompt]" "lines s1 = lines (video_begin prompt s)"
    by (simp_all add: assms(5) call_backend_def video_begin_def append_lines_def)
  have vt: "video_try E prompt (video_begin prompt s)
      = (case generateVideo E prompt of
           StartThrows e \<Rightarrow> Some (video_catch e s1)
         | StartError operationResult \<Rightarrow>
             Some ((append_lines [mk_line ERROR (Str operationResult)] s1)\<lparr>isLoading := False\<rparr>)
         | StartOperation operation \<Rightarrow>
             (case poll E operation 0 s1 of
                None \<Rightarrow> None
              | Some (Inl e, s2) \<Rightarrow> Some (video_catch e s2)
              | Some (Inr operation', s2) \<Rightarrow> Some (video_result E prompt operation' s2)))"
    unfolding assms(5) by (simp add: video_try_def Let_def)
  have c1: "\<forall>r. processCommand E commandStr s = Some r \<longrightarrow>
        (\<exists>s'. r = Returns s' \<and> \<not> isLoading s')"
    unfolding pc by (auto split: option.splits)
  have c2: "\<forall>msg. generateVideo E prompt = StartError msg \<longrightarrow>
        (\<exists>s'. processCommand E commandStr s = Some (Returns s') \<and> \<not> isLoading s'
           \<and> lines s' = lines (video_begin prompt s) @ [mk_line ERROR (Str msg)]
           \<and> trace s' = trace s @ [GenerateVideo prompt])"
    unfolding pc vt using t1 by (simp add: append_lines_def)
  have c3: "\<forall>e. generateVideo E prompt = StartThrows e \<longrightarrow>
        (\<exists>s'. processCommand E commandStr s = Some (Returns s') \<and> \<not> isLoading s'
           \<and> lines s' = lines (video_begin prompt s)
                @ [mk_line ERROR (Str (''Error: '' @ errorMessage e))]
           \<and> trace s' = trace s @ [GenerateVideo prompt])"
    unfolding pc vt using t1 by (simp add: video_catch_def append_lines_def)
  have c4: "\<forall>operation n.
          generateVideo E prompt = StartOperation operation \<and> ends_within E operation 0 n
          \<longrightarrow> (\<exists>s'. processCommand E commandStr s = Some (Returns s') \<and> \<not> isLoading s')"
  proof (intro allI impI)
    fix operation n
    assume h: "generateVideo E prompt = StartOperation operation \<and> ends_within E operation 0 n"
    then obtain r where "poll E operation 0 s1 = Some r"
      using poll_returns[of E operation 0 n s1] by auto
    then show "\<exists>s'. processCommand E commandStr s = Some (Returns s') \<and> \<not> isLoading s'"
      unfolding pc vt using h by (cases r; cases "fst r") auto
  qed
  have c5: "\<forall>operation e s2.
          generateVideo E prompt = StartOperation operation
          \<and> poll E operation 0 s1 = Some (Inl e, s2) \<longrightarrow>
          (\<exists>s'. processCommand E commandStr s = Some (Returns s') \<and> \<not> isLoading s'
             \<and> lines s' = lines s2 @ [mk_line ERROR (Str (''Error: '' @ errorMessage e))]
             \<and> trace s' = trace s2)"
    unfolding pc vt by (simp add: video_catch_def append_lines_def)
  have c6: "\<forall>operation operation' s2 e.
          generateVideo E prompt = StartOperation operation
          \<and> poll E operation 0 s1 = Some (Inr operation', s2)
          \<and> truthy (downloadLink operation')
          \<and> fetchBlob E (media_url E operation') = Inl e \<longrightarrow>
          (\<exists>s'. processCommand E commandStr s = Some (Returns s') \<and> \<not> isLoading s'
             \<and> lines s' = lines s2
                  @ [mk_line SYSTEM
                       (Str ''Video generated! Downloading and preparing for playback...''),
                     mk_line ERROR (Str (''Error: '' @ errorMessage e))])"
    unfolding pc vt
    by (simp add: video_result_def Let_def video_catch_def append_lines_def call_backend_def)
  have c7: "\<forall>operation operation' s2 objectUrl.
          generateVideo E prompt = StartOperation operation
          \<and> poll E operation 0 s1 = Some (Inr operation', s2)
          \<and> truthy (downloadLink operation')
          \<and> fetchBlob E (media_url E operation') = Inr objectUrl \<longrightarrow>
          (\<exists>s'. processCommand E commandStr s = Some (Returns s') \<and> \<not> isLoading s'
             \<and> lines s' = lines s2
                  @ [mk_line SYSTEM
                       (Str ''Video generated! Downloading and preparing for playback...''),
                     mk_line VIDEO (Arr [objectUrl, prompt])])"
    unfolding pc vt
    by (simp add: video_result_def Let_def append_lines_def call_backend_def)
  have c8: "\<forall>operation operation' s2.
          generateVideo E prompt = StartOperation operation
          \<and> poll E operation 0 s1 = Some (Inr operation', s2)
          \<and> \<not> truthy (downloadLink operation') \<longrightarrow>
          (\<exists>s'. processCommand E commandStr s = Some (Returns s') \<and> \<not> isLoading s'
             \<and> lines s' = lines s2
                  @ [mk_line ERROR (Str
                       ''Video generation finished, but no video was returned. Please try a different prompt.'')])"
    unfolding pc vt
    by (simp add: video_result_def append_lines_def)
  from c1 c2 c3 c4 c5 c6 c7 c8 show ?thesis by blast
qed

theorem video_clears_busy_witness:
  "tokens ''video a cat'' = [''video'', ''a'', ''cat'']
   \<and> toLowerCase ''video'' = ''video''
   \<and> join [''a'', ''cat''] = ''a cat''
   \<and> generateVideo demo_backend ''a cat''
       = StartOperation \<lparr> done = False, downloadLink = None \<rparr>
   \<and> ends_within demo_backend \<lparr> done = False, downloadLink = None \<rparr> 0 3
   \<and> (\<exists>s'. processCommand demo_backend ''video a cat'' (initial_state []) = Some (Returns s')
          \<and> \<not> isLoading s')
   \<and> generateVideo keyless_backend ''a cat'' = StartError ''Error: API_KEY is not configured.''
   \<and> (\<exists>s'. processCommand keyless_backend ''video a cat'' (initial_state [])
            = Some (Returns s')
          \<and> \<not> isLoading s'
          \<and> errors (lines s') = [mk_line ERROR (Str ''Error: API_KEY is not configured.'')]
          \<and> trace s' = [GenerateVideo ''a cat''])"
proof -
  have t: "tokens ''video a cat'' = [''video'', ''a'', ''cat'']" by code_simp
  have l: "toLowerCase ''video'' = ''video''" by code_simp
  have j: "join [''a'', ''cat''] = ''a cat''" by simp
  have ne: "''a cat'' \<noteq> []" by simp
  have g: "generateVideo demo_backend ''a cat''
       = StartOperation \<lparr> done = False, downloadLink = None \<rparr>"
    by (simp add: demo_backend_def)
  have e: "ends_within demo_backend \<lparr> done = False, downloadLink = None \<rparr> 0 3"
    by code_simp
  have k: "generateVideo keyless_backend ''a cat''
       = StartError ''Error: API_KEY is not configured.''"
    by (simp add: keyless_backend_def)
  have a: "\<exists>s'. processCommand demo_backend ''video a cat'' (initial_state [])
              = Some (Returns s') \<and> \<not> isLoading s'"
    using video_clears_busy [OF t l j ne refl, of demo_backend "initial_state []",
        THEN conjunct2, THEN conjunct2, THEN conjunct2, THEN conjunct1] g e
    by blast
  have b: "\<exists>s'. processCommand keyless_backend ''video a cat'' (initial_state [])
              = Some (Returns s')
          \<and> \<not> isLoading s'
          \<and> errors (lines s') = [mk_line ERROR (Str ''Error: API_KEY is not configured.'')]
          \<and> trace s' = [GenerateVideo ''a cat'']"
    using video_clears_busy [OF t l j ne refl, of keyless_backend "initial_state []",
        THEN conjunct2, THEN conjunct1] k
    by (auto simp: errors_def video_begin_def append_lines_def initial_state_def mk_line_def)
  show ?thesis using t l j g e a b k by simp
qed

section \<open>Modes: Chat and DocChat exclude each other\<close>

lemma state_of_ended: "state_of (ended x s) = Some s"
  by (cases x) simp_all

lemma stream_reply_modes:
  assumes "state_of (stream_reply c st s) = Some s'"
  shows "isChatMode s' = isChatMode s \<and> isChatDocMode s' = isChatDocMode s"
  using stream_reply_result[of c st s] assms by (auto simp: state_of_ended)

lemma handleSearch_modes:
  assumes "state_of (handleSearch E prompt s) = Some s'"
  shows "isChatMode s' = isChatMode s \<and> isChatDocMode s' = isChatDocMode s"
  using handleSearch_result[of E prompt s] assms by (auto simp: state_of_ended)

lemma video_try_modes:
  assumes "video_try E prompt s = Some s'"
  shows "isChatMode s' = isChatMode s \<and> isChatDocMode s' = isChatDocMode s"
proof (cases "generateVideo E prompt")
  case (StartThrows e)
  with assms show ?thesis
    by (auto simp: video_try_def Let_def video_catch_def append_lines_def call_backend_def)
next
  case (StartError m)
  with assms show ?thesis
    by (auto simp: video_try_def Let_def append_lines_def call_backend_def)
next
  case (StartOperation operation)
  let ?s1 = "call_backend (GenerateVideo prompt) s"
  from assms StartOperation obtain r s2 where p: "poll E operation 0 ?s1 = Some (r, s2)"
    and s': "s' = (case r of Inl e \<Rightarrow> video_catch e s2
                   | Inr operation' \<Rightarrow> video_result E prompt operation' s2)"
    by (auto simp: video_try_def Let_def split: option.splits sum.splits)
  from poll_frame[OF p] have "isChatMode s2 = isChatMode s \<and> isChatDocMode s2 = isChatDocMode s"
    by (auto simp: call_backend_def)
  moreover have "isChatMode s' = isChatMode s2 \<and> isChatDocMode s' = isChatDocMode s2"
    unfolding s'
    by (cases r; cases "fetchBlob E (media_url E (projr r))")
      (simp_all add: video_catch_def video_result_def Let_def append_lines_def call_backend_def)
  ultimately show ?thesis by simp
qed

lemma cmd_video_modes:
  assumes "cmd_video E args s = Some r" "state_of r = Some s'"
  shows "isChatMode s' = isChatMode s \<and> isChatDocMode s' = isChatDocMode s"
proof (cases "join args = []")
  case True
  with assms show ?thesis by (auto simp: cmd_video_def append_lines_def)
next
  case False
  with assms obtain t where t: "video_try E (join args) (video_begin (join args) s) = Some t"
    and s': "s' = t\<lparr>isLoading := False\<rparr>"
    by (auto simp: cmd_video_def Let_def split: option.splits)
  from video_try_modes[OF t] s' show ?thesis
    by (simp add: video_begin_def append_lines_def)
qed

lemma cmd_plain_modes:
  "cmd_code E args s = Some r \<Longrightarrow> state_of r = Some s'
     \<Longrightarrow> isChatMode s' = isChatMode s \<and> isChatDocMode s' = isChatDocMode s"
  "cmd_image E args s = Some r \<Longrightarrow> state_of r = Some s'
     \<Longrightarrow> isChatMode s' = isChatMode s \<and> isChatDocMode s' = isChatDocMode s"
  "cmd_editimg E args s = Some r \<Longrightarrow> state_of r = Some s'
     \<Longrightarrow> isChatMode s' = isChatMode s \<and> isChatDocMode s' = isChatDocMode s"
  "cmd_docs args s = Some r \<Longrightarrow> state_of r = Some s'
     \<Longrightarrow> isChatMode s' = isChatMode s \<and> isChatDocMode s' = isChatDocMode s"
  by (auto simp: cmd_code_def cmd_image_def cmd_editimg_def cmd_docs_def docs_select_def
      finish_def Let_def append_lines_def call_backend_def
      split: if_splits list.splits)

lemma cmd_ask_modes:
  assumes "cmd_ask E args s = Some r" "state_of r = Some s'"
  shows "isChatMode s' = isChatMode s \<and> isChatDocMode s' = isChatDocMode s"
proof (cases "join args = []")
  case True
  with assms show ?thesis by (auto simp: cmd_ask_def append_lines_def)
next
  case False
  with assms have "state_of (stream_reply (AskGeminiStream (join args))
      (askGeminiStream E (join args)) s) = Some s'"
    by (auto simp: cmd_ask_def handleAsk_def Let_def)
  then show ?thesis by (rule stream_reply_modes)
qed

lemma cmd_search_modes:
  assumes "cmd_search E args s = Some r" "state_of r = Some s'"
  shows "isChatMode s' = isChatMode s \<and> isChatDocMode s' = isChatDocMode s"
proof (cases "join args = []")
  case True
  with assms show ?thesis by (auto simp: cmd_search_def append_lines_def)
next
  case False
  with assms have "state_of (handleSearch E (join args) s) = Some s'"
    by (auto simp: cmd_search_def Let_def)
  then show ?thesis by (rule handleSearch_modes)
qed

lemma cmd_chat_modes:
  assumes "cmd_chat s = Some r" "state_of r = Some s'"
  shows "isChatDocMode s' = isChatDocMode s
         \<and> (if isChatDocMode s then isChatMode s' = isChatMode s else isChatMode s')"
  using assms
  by (auto simp: cmd_chat_def finish_def append_lines_def call_backend_def split: if_splits)

lemma cmd_chatdoc_modes:
  assumes "cmd_chatdoc args s = Some r" "state_of r = Some s'"
  shows "isChatMode s' = isChatMode s \<and> (isChatDocMode s' = isChatDocMode s \<or> \<not> isChatMode s)"
  using assms
  by (auto simp: cmd_chatdoc_def finish_def append_lines_def call_backend_def split: if_splits)

lemma processCommand_exclusive:
  assumes "\<not> (isChatMode s \<and> isChatDocMode s)"
    and "processCommand E commandStr s = Some r" "state_of r = Some s'"
  shows "\<not> (isChatMode s' \<and> isChatDocMode s')"
proof (cases "tokens commandStr")
  case Nil
  with assms show ?thesis by (auto simp: processCommand_def)
next
  case (Cons command args)
  let ?c = "toLowerCase command"
  consider (chat) "?c = ''chat''" | (chatdoc) "?c = ''chatdoc''"
    | (ask) "?c = ''ask''" | (search) "?c = ''search''" | (code) "?c = ''code''"
    | (image) "?c = ''image''" | (editimg) "?c = ''editimg''" | (video) "?c = ''video''"
    | (docs) "?c = ''docs''"
    | (other) "?c \<notin> {''chat'', ''chatdoc'', ''ask'', ''search'', ''code'', ''image'',
                     ''editimg'', ''video'', ''docs''}"
    by auto
  then show ?thesis
  proof cases
    case chat
    then have "cmd_chat s = Some r" using assms(2) Cons by (simp add: processCommand_def)
    from cmd_chat_modes[OF this assms(3)] assms(1) show ?thesis by (auto split: if_splits)
  next
    case chatdoc
    then have "cmd_chatdoc args s = Some r" using assms(2) Cons by (simp add: processCommand_def)
    from cmd_chatdoc_modes[OF this assms(3)] assms(1) show ?thesis by auto
  next
    case ask
    then have "cmd_ask E args s = Some r" using assms(2) Cons by (simp add: processCommand_def)
    from cmd_ask_modes[OF this assms(3)] assms(1) show ?thesis by simp
  next
    case search
    then have "cmd_search E args s = Some r" using assms(2) Cons by (simp add: processCommand_def)
    from cmd_search_modes[OF this assms(3)] assms(1) show ?thesis by simp
  next
    case code
    then have "cmd_code E args s = Some r" using assms(2) Cons by (simp add: processCommand_def)
    from cmd_plain_modes(1)[OF this assms(3)] assms(1) show ?thesis by simp
  next
    case image
    then have "cmd_image E args s = Some r" using assms(2) Cons by (simp add: processCommand_def)
    from cmd_plain_modes(2)[OF this assms(3)] assms(1) show ?thesis by simp
  next
    case editimg
    then have "cmd_editimg E args s = Some r" using assms(2) Cons by (simp add: processCommand_def)
    from cmd_plain_modes(3)[OF this assms(3)] assms(1) show ?thesis by simp
  next
    case video
    then have "cmd_video E args s = Some r" using assms(2) Cons by (simp add: processCommand_def)
    from cmd_video_modes[OF this assms(3)] assms(1) show ?thesis by simp
  next
    case docs
    then have "cmd_docs args s = Some r" using assms(2) Cons by (simp add: processCommand_def)
    from cmd_plain_modes(4)[OF this assms(3)] assms(1) show ?thesis by simp
  next
    case other
    then have "isChatMode s' = isChatMode s \<and> isChatDocMode s' = isChatDocMode s"
      using assms(2,3) Cons
      by (auto simp: processCommand_def Let_def finish_def append_lines_def call_backend_def
          split: if_splits)
    with assms(1) show ?thesis by simp
  qed
qed

lemma after_Some: "after (Some r) = state_of r"
  by (cases r) simp_all

lemma clear_input_modes:
  assumes "after (clear_input x) = Some s'"
  shows "\<exists>t. after x = Some t \<and> isChatMode s' = isChatMode t
           \<and> isChatDocMode s' = isChatDocMode t \<and> lines s' = lines t"
proof (cases x)
  case None
  with assms show ?thesis by simp
next
  case (Some r)
  with assms show ?thesis by (cases r) auto
qed

lemma handleChat_exclusive:
  assumes "state_of (handleChat E message s) = Some s'"
  shows "isChatDocMode s' = isChatDocMode s \<and> (isChatMode s' \<longrightarrow> isChatMode s)"
proof (cases "toLowerCase message = ''exit''")
  case True
  with assms show ?thesis by (auto simp: handleChat_def append_lines_def)
next
  case False
  with assms stream_reply_modes[of "SendChatMessageStream message"
      "sendChatMessageStream E message" s s']
  show ?thesis by (simp add: handleChat_def)
qed

lemma handleChatDocConversation_exclusive:
  assumes "state_of (handleChatDocConversation E message s) = Some s'"
  shows "isChatMode s' = isChatMode s \<and> (isChatDocMode s' \<longrightarrow> isChatDocMode s)"
proof (cases "toLowerCase message = ''exit''")
  case True
  with assms show ?thesis by (auto simp: handleChatDocConversation_def append_lines_def)
next
  case False
  with assms stream_reply_modes[of "SendChatDocMessageStream message"
      "sendChatDocMessageStream E message" s s']
  show ?thesis by (simp add: handleChatDocConversation_def)
qed

lemma handleSubmit_exclusive:
  assumes "\<not> (isChatMode s \<and> isChatDocMode s)" "after (handleSubmit E s) = Some s'"
  shows "\<not> (isChatMode s' \<and> isChatDocMode s')"
proof -
  let ?command = "trim (inputValue s)"
  let ?s0 = "s\<lparr>suggestions := []\<rparr>"
  let ?s1 = "append_lines
     [mk_line (if isChatMode s \<or> isChatDocMode s then SYSTEM else COMMAND) (Str ?command)] ?s0"
  have m1: "isChatMode ?s1 = isChatMode s" "isChatDocMode ?s1 = isChatDocMode s"
    by (simp_all add: append_lines_def)
  consider (busy) "isLoading s \<or> isListening s"
    | (empty) "\<not> (isLoading s \<or> isListening s)" "?command = []"
    | (chat) "\<not> (isLoading s \<or> isListening s)" "?command \<noteq> []" "isChatMode s"
    | (doc) "\<not> (isLoading s \<or> isListening s)" "?command \<noteq> []" "\<not> isChatMode s"
        "isChatDocMode s"
    | (normal) "\<not> (isLoading s \<or> isListening s)" "?command \<noteq> []" "\<not> isChatMode s"
        "\<not> isChatDocMode s"
    by blast
  then show ?thesis
  proof cases
    case busy
    with assms show ?thesis
      unfolding handleSubmit_def Let_def clear_suggestions by auto
  next
    case empty
    with assms show ?thesis
      unfolding handleSubmit_def Let_def clear_suggestions
      by (auto simp: append_lines_def split: if_splits)
  next
    case chat
    then have "handleSubmit E s = clear_input (Some (handleChat E ?command ?s1))"
      unfolding handleSubmit_def Let_def clear_suggestions by simp
    with assms(2) clear_input_modes[of "Some (handleChat E ?command ?s1)" s']
    obtain t where "state_of (handleChat E ?command ?s1) = Some t"
      "isChatMode s' = isChatMode t" "isChatDocMode s' = isChatDocMode t"
      by (auto simp: after_Some)
    with handleChat_exclusive[of E ?command ?s1 t] m1 assms(1) show ?thesis by auto
  next
    case doc
    then have "handleSubmit E s = clear_input (Some (handleChatDocConversation E ?command ?s1))"
      unfolding handleSubmit_def Let_def clear_suggestions by simp
    with assms(2) clear_input_modes[of "Some (handleChatDocConversation E ?command ?s1)" s']
    obtain t where "state_of (handleChatDocConversation E ?command ?s1) = Some t"
      "isChatMode s' = isChatMode t" "isChatDocMode s' = isChatDocMode t"
      by (auto simp: after_Some)
    with handleChatDocConversation_exclusive[of E ?command ?s1 t] m1 assms(1) doc
    show ?thesis by auto
  next
    case normal
    let ?s2 = "?s1\<lparr>commandHistory := ?command # commandHistory s, historyIndex := - 1\<rparr>"
    from normal have "handleSubmit E s = clear_input (processCommand E ?command ?s2)"
      unfolding handleSubmit_def Let_def clear_suggestions by simp
    with assms(2) clear_input_modes[of "processCommand E ?command ?s2" s']
    obtain t where a: "after (processCommand E ?command ?s2) = Some t"
      and "isChatMode s' = isChatMode t" "isChatDocMode s' = isChatDocMode t"
      by auto
    moreover from a obtain r where "processCommand E ?command ?s2 = Some r" "state_of r = Some t"
      by (cases "processCommand E ?command ?s2") (auto simp: after_Some)
    moreover have "\<not> (isChatMode ?s2 \<and> isChatDocMode ?s2)"
      using normal by (simp add: append_lines_def)
    ultimately show ?thesis
      using processCommand_exclusive[of ?s2 E ?command _ t] by auto
  qed
qed

lemma step_exclusive:
  assumes "\<not> (isChatMode s \<and> isChatDocMode s)" "step e s = Some s'"
  shows "\<not> (isChatMode s' \<and> isChatDocMode s')"
proof (cases e)
  case (Submit E)
  with assms handleSubmit_exclusive[of s E s'] show ?thesis by simp
next
  case (KeyDown k)
  with assms show ?thesis
    by (auto simp: handleKeyDown_def recall_def complete_def Let_def
        split: if_splits option.splits list.splits)
next
  case (FileChosen f r)
  with assms show ?thesis
    by (auto simp: handleFileChange_def reader_onload_def reader_onerror_def Let_def
        append_lines_def split: option.splits if_splits sum.splits)
qed (use assms in \<open>auto simp: handleInputChange_def handleToggleListening_def
       recognition_onerror_def Let_def append_lines_def split: if_splits\<close>)

lemma run_exclusive:
  "\<not> (isChatMode s \<and> isChatDocMode s) \<Longrightarrow> run es s = Some s'
   \<Longrightarrow> \<not> (isChatMode s' \<and> isChatDocMode s')"
proof (induction es arbitrary: s)
  case Nil
  then show ?case by simp
next
  case (Cons e es)
  from Cons.prems(2) obtain t where t: "step e s = Some t" "run es t = Some s'"
    by (auto split: option.splits)
  from step_exclusive[OF Cons.prems(1) t(1)] Cons.IH[OF _ t(2)] show ?case by blast
qed

text \<open>Input submitted in a chat mode goes to the conversation, whatever it says
  (other than exit).\<close>

lemma handleSubmit_in_docchat:
  assumes "\<not> isLoading s" "\<not> isListening s" "\<not> isChatMode s" "isChatDocMode s"
    and "trim (inputValue s) = msg" "msg \<noteq> []" "toLowerCase msg \<noteq> ''exit''"
  shows "\<exists>s'. after (handleSubmit E s) = Some s' \<and> \<not> isChatMode s' \<and> isChatDocMode s'
     \<and> lines s' = lines s
          @ [mk_line SYSTEM (Str msg),
             mk_line OUTPUT (Arr (split newline (concat (fst (sendChatDocMessageStream E msg)))))]"
proof -
  let ?s1 = "append_lines [mk_line SYSTEM (Str msg)] (s\<lparr>suggestions := []\<rparr>)"
  have hs: "handleSubmit E s = clear_input (Some (stream_reply (SendChatDocMessageStream msg)
              (sendChatDocMessageStream E msg) ?s1))"
    using assms unfolding handleSubmit_def Let_def clear_suggestions
    by (simp add: handleChatDocConversation_def)
  from stream_reply_result[of "SendChatDocMessageStream msg" "sendChatDocMessageStream E msg" ?s1]
  obtain t where t: "stream_reply (SendChatDocMessageStream msg)
        (sendChatDocMessageStream E msg) ?s1 = ended (snd (sendChatDocMessageStream E msg)) t"
    "lines t = lines ?s1
       @ [mk_line OUTPUT (Arr (split newline (concat (fst (sendChatDocMessageStream E msg)))))]"
    "isChatMode t = isChatMode ?s1" "isChatDocMode t = isChatDocMode ?s1"
    by blast
  show ?thesis
    unfolding hs t(1) using t(2-) assms(3,4)
    by (cases "snd (sendChatDocMessageStream E msg)") (auto simp: append_lines_def)
qed

lemma handleSubmit_in_chat:
  assumes "\<not> isLoading s" "\<not> isListening s" "isChatMode s" "\<not> isChatDocMode s"
    and "trim (inputValue s) = msg" "msg \<noteq> []" "toLowerCase msg \<noteq> ''exit''"
  shows "\<exists>s'. after (handleSubmit E s) = Some s' \<and> isChatMode s' \<and> \<not> isChatDocMode s'
     \<and> lines s' = lines s
          @ [mk_line SYSTEM (Str msg),
             mk_line OUTPUT (Arr (split newline (concat (fst (sendChatMessageStream E msg)))))]"
proof -
  let ?s1 = "append_lines [mk_line SYSTEM (Str msg)] (s\<lparr>suggestions := []\<rparr>)"
  have hs: "handleSubmit E s = clear_input (Some (stream_reply (SendChatMessageStream msg)
              (sendChatMessageStream E msg) ?s1))"
    using assms unfolding handleSubmit_def Let_def clear_suggestions
    by (simp add: handleChat_def)
  from stream_reply_result[of "SendChatMessageStream msg" "sendChatMessageStream E msg" ?s1]
  obtain t where t: "stream_reply (SendChatMessageStream msg)
        (sendChatMessageStream E msg) ?s1 = ended (snd (sendChatMessageStream E msg)) t"
    "lines t = lines ?s1
       @ [mk_line OUTPUT (Arr (split newline (concat (fst (sendChatMessageStream E msg)))))]"
    "isChatMode t = isChatMode ?s1" "isChatDocMode t = isChatDocMode ?s1"
    by blast
  show ?thesis
    unfolding hs t(1) using t(2-) assms(3,4)
    by (cases "snd (sendChatMessageStream E msg)") (auto simp: append_lines_def)
qed

text \<open>
  Claim C1, as the code has it. Along every sequence of events from the first
  render (and from any state that is not in both modes) isChatMode and
  isChatDocMode are never both true. processCommand called with chat while
  isChatDocMode holds, or with chatdoc while isChatMode holds, appends exactly
  one Error line and changes nothing else. But handleSubmit does not call
  processCommand in a chat mode: a line submitted in DocChat or in Chat, chat and
  chatdoc included and exit excepted, is sent to the conversation. Both flags stay
  as they are, and the lines appended are the System echo of the input and the
  Output line with the reply, with no Error line.
\<close>

theorem mode_exclusion:
  "(\<forall>es s0 s'. \<not> (isChatMode s0 \<and> isChatDocMode s0) \<and> run es s0 = Some s'
        \<longrightarrow> \<not> (isChatMode s' \<and> isChatDocMode s'))
   \<and> (\<forall>es s'. run es (initial_state WELCOME_LINES) = Some s'
        \<longrightarrow> \<not> (isChatMode s' \<and> isChatDocMode s'))
   \<and> (\<forall>s commandStr command args.
        tokens commandStr = command # args \<and> toLowerCase command = ''chat'' \<and> isChatDocMode s
        \<longrightarrow> processCommand E commandStr s
            = Some (Returns (append_lines
                [mk_line ERROR
                   (Str ''Already in document chat mode. Type `exit` to leave first.'')] s)))
   \<and> (\<forall>s commandStr command args.
        tokens commandStr = command # args \<and> toLowerCase command = ''chatdoc'' \<and> isChatMode s
        \<longrightarrow> processCommand E commandStr s
            = Some (Returns (append_lines
                [mk_line ERROR
                   (Str ''Already in regular chat mode. Type `exit` to leave first.'')] s)))
   \<and> (\<forall>s msg.
        \<not> isLoading s \<and> \<not> isListening s \<and> \<not> isChatMode s \<and> isChatDocMode s
        \<and> trim (inputValue s) = msg \<and> msg \<noteq> [] \<and> toLowerCase msg \<noteq> ''exit''
        \<longrightarrow> (\<exists>s'. after (handleSubmit E s) = Some s' \<and> \<not> isChatMode s' \<and> isChatDocMode s'
              \<and> lines s' = lines s
                   @ [mk_line SYSTEM (Str msg),
                      mk_line OUTPUT
                        (Arr (split newline (concat (fst (sendChatDocMessageStream E msg)))))]))
   \<and> (\<forall>s msg.
        \<not> isLoading s \<and> \<not> isListening s \<and> isChatMode s \<and> \<not> isChatDocMode s
        \<and> trim (inputValue s) = msg \<and> msg \<noteq> [] \<and> toLowerCase msg \<noteq> ''exit''
        \<longrightarrow> (\<exists>s'. after (handleSubmit E s) = Some s' \<and> isChatMode s' \<and> \<not> isChatDocMode s'
              \<and> lines s' = lines s
                   @ [mk_line SYSTEM (Str msg),
                      mk_line OUTPUT
                        (Arr (split newline (concat (fst (sendChatMessageStream E msg)))))]))"
proof (intro conjI allI impI)
  fix es s0 s'
  assume "\<not> (isChatMode s0 \<and> isChatDocMode s0) \<and> run es s0 = Some s'"
  then show "\<not> (isChatMode s' \<and> isChatDocMode s')"
    using run_exclusive[of s0 es s'] by blast
next
  fix es s'
  assume "run es (initial_state WELCOME_LINES) = Some s'"
  moreover have "\<not> (isChatMode (initial_state WELCOME_LINES)
      \<and> isChatDocMode (initial_state WELCOME_LINES))"
    by (simp add: initial_state_def)
  ultimately show "\<not> (isChatMode s' \<and> isChatDocMode s')"
    using run_exclusive by blast
next
  fix s :: state and commandStr command args
  assume "tokens commandStr = command # args \<and> toLowerCase command = ''chat'' \<and> isChatDocMode s"
  then show "processCommand E commandStr s
            = Some (Returns (append_lines
                [mk_line ERROR
                   (Str ''Already in document chat mode. Type `exit` to leave first.'')] s))"
    by (simp add: processCommand_def cmd_chat_def finish_def)
next
  fix s :: state and commandStr command args
  assume "tokens commandStr = command # args \<and> toLowerCase command = ''chatdoc''
    \<and> isChatMode s"
  then show "processCommand E commandStr s
            = Some (Returns (append_lines
                [mk_line ERROR
                   (Str ''Already in regular chat mode. Type `exit` to leave first.'')] s))"
    by (simp add: processCommand_def cmd_chatdoc_def finish_def)
next
  fix s :: state and msg
  assume "\<not> isLoading s \<and> \<not> isListening s \<and> \<not> isChatMode s \<and> isChatDocMode s
        \<and> trim (inputValue s) = msg \<and> msg \<noteq> [] \<and> toLowerCase msg \<noteq> ''exit''"
  then show "\<exists>s'. after (handleSubmit E s) = Some s' \<and> \<not> isChatMode s' \<and> isChatDocMode s'
              \<and> lines s' = lines s
                   @ [mk_line SYSTEM (Str msg),
                      mk_line OUTPUT
                        (Arr (split newline (concat (fst (sendChatDocMessageStream E msg)))))]"
    using handleSubmit_in_docchat[of s msg E] by blast
next
  fix s :: state and msg
  assume "\<not> isLoading s \<and> \<not> isListening s \<and> isChatMode s \<and> \<not> isChatDocMode s
        \<and> trim (inputValue s) = msg \<and> msg \<noteq> [] \<and> toLowerCase msg \<noteq> ''exit''"
  then show "\<exists>s'. after (handleSubmit E s) = Some s' \<and> isChatMode s' \<and> \<not> isChatDocMode s'
              \<and> lines s' = lines s
                   @ [mk_line SYSTEM (Str msg),
                      mk_line OUTPUT
                        (Arr (split newline (concat (fst (sendChatMessageStream E msg)))))]"
    using handleSubmit_in_chat[of s msg E] by blast
qed

text \<open>The claim as stated fails: in document chat, submitting chat appends the
  echo and the reply, and no Error line.\<close>

theorem chat_in_docchat_counterexample:
  "map_option isChatDocMode (run enter_docchat (initial_state [])) = Some True
   \<and> map_option length (map_option lines (run enter_docchat (initial_state []))) = Some 4
   \<and> map_option (drop 4)
        (map_option lines (run (enter_docchat @ enter demo_backend ''chat'') (initial_state [])))
     = Some [mk_line SYSTEM (Str ''chat''), mk_line OUTPUT (Arr [''ok''])]
   \<and> errors [mk_line SYSTEM (Str ''chat''), mk_line OUTPUT (Arr [''ok''])] = []"
  by code_simp

theorem mode_exclusion_witness:
  "run (enter_docchat @ enter demo_backend ''chat'') (initial_state [])
     = Some ((initial_state [])
         \<lparr>lines :=
            [mk_line SYSTEM (Str ''Successfully loaded 'a.txt' (1 characters).''),
             mk_line SYSTEM (Str
               ''Use `docs list` to see all files or `chatdoc` to start a conversation.''),
             mk_line COMMAND (Str ''chatdoc''),
             mk_line SYSTEM (Str ''Entered chat mode for 'a.txt'. Type 'exit' to leave.''),
             mk_line SYSTEM (Str ''chat''),
             mk_line OUTPUT (Arr [''ok''])],
          commandHistory := [''chatdoc''],
          isChatDocMode := True,
          documents := [(''a.txt'', ''x'')],
          activeDoc := Some ''a.txt'',
          trace := [StartChatDoc (JString ''x''), SendChatDocMessageStream ''chat'']\<rparr>)
   \<and> \<not> (isChatMode ((initial_state [])\<lparr>isChatDocMode := True\<rparr>)
         \<and> isChatDocMode ((initial_state [])\<lparr>isChatDocMode := True\<rparr>))
   \<and> tokens ''chat'' = [''chat''] \<and> toLowerCase ''chat'' = ''chat''
   \<and> processCommand demo_backend ''chat'' ((initial_state [])\<lparr>isChatDocMode := True\<rparr>)
     = Some (Returns (append_lines
         [mk_line ERROR (Str ''Already in document chat mode. Type `exit` to leave first.'')]
         ((initial_state [])\<lparr>isChatDocMode := True\<rparr>)))"
proof -
  have r: "run (enter_docchat @ enter demo_backend ''chat'') (initial_state [])
     = Some ((initial_state [])
         \<lparr>lines :=
            [mk_line SYSTEM (Str ''Successfully loaded 'a.txt' (1 characters).''),
             mk_line SYSTEM (Str
               ''Use `docs list` to see all files or `chatdoc` to start a conversation.''),
             mk_line COMMAND (Str ''chatdoc''),
             mk_line SYSTEM (Str ''Entered chat mode for 'a.txt'. Type 'exit' to leave.''),
             mk_line SYSTEM (Str ''chat''),
             mk_line OUTPUT (Arr [''ok''])],
          commandHistory := [''chatdoc''],
          isChatDocMode := True,
          documents := [(''a.txt'', ''x'')],
          activeDoc := Some ''a.txt'',
          trace := [StartChatDoc (JString ''x''), SendChatDocMessageStream ''chat'']\<rparr>)"
    by code_simp
  have t: "tokens ''chat'' = [''chat'']" "toLowerCase ''chat'' = ''chat''"
    by code_simp+
  have p: "processCommand demo_backend ''chat'' ((initial_state [])\<lparr>isChatDocMode := True\<rparr>)
     = Some (Returns (append_lines
         [mk_line ERROR (Str ''Already in document chat mode. Type `exit` to leave first.'')]
         ((initial_state [])\<lparr>isChatDocMode := True\<rparr>)))"
    using mode_exclusion [of "[]" demo_backend, THEN conjunct2, THEN conjunct2, THEN conjunct1]
      t
    by simp
  have i: "\<not> (isChatMode ((initial_state [])\<lparr>isChatDocMode := True\<rparr>)
         \<and> isChatDocMode ((initial_state [])\<lparr>isChatDocMode := True\<rparr>))"
    by (simp add: initial_state_def)
  show ?thesis using r t p i by simp
qed

section \<open>Uploads and the active document\<close>

text \<open>What the load callback does: it stores the content under the file's name,
  and decides on the active document by the activeDoc of the render in which the
  file was chosen, not by the state in which the read ends.\<close>

lemma reader_onload_effect:
  assumes "\<not> type_rejected (file_type file)"
  shows "\<exists>reader. handleFileChange (Some file) s = (s, Some reader)
     \<and> (\<forall>t. map_of (documents (reader_onload reader content t))
              = (map_of (documents t))(file_name file \<mapsto> content)
           \<and> activeDoc (reader_onload reader content t)
              = (if truthy (activeDoc s) then activeDoc t else Some (file_name file)))"
  using assms
  by (simp add: handleFileChange_def reader_onload_def Let_def append_lines_def map_of_js_set)

text \<open>
  Claim C6 fails in the code, in both halves. The first upload is not always
  activated: after \<^verbatim>\<open>docs select toString\<close> on the empty table the active document
  is toString, a name that no upload stored, and the first upload a.txt is stored
  and not made active. And an upload can change the active document when one is
  active: when a.txt and b.txt are chosen before either read has ended, both
  callbacks hold the activeDoc of the render in which the files were chosen, which
  is unset; the read of a.txt ends and makes a.txt active, then the read of b.txt
  ends, while a.txt is active, and makes b.txt active.
\<close>

theorem first_upload_not_activated:
  "map_option (\<lambda>s. (documents s, activeDoc s)) (run select_then_first_upload (initial_state []))
     = Some ([(''a.txt'', ''x'')], Some ''toString'')
   \<and> handleFileChange (Some file_a) (initial_state [])
     = (initial_state [], Some \<lparr> reader_file = file_a, reader_activeDoc = None \<rparr>)
   \<and> handleFileChange (Some file_b) (initial_state [])
     = (initial_state [], Some \<lparr> reader_file = file_b, reader_activeDoc = None \<rparr>)
   \<and> activeDoc (reader_onload \<lparr> reader_file = file_a, reader_activeDoc = None \<rparr> ''A''
        (initial_state []))
     = Some ''a.txt''
   \<and> activeDoc (reader_onload \<lparr> reader_file = file_b, reader_activeDoc = None \<rparr> ''B''
        (reader_onload \<lparr> reader_file = file_a, reader_activeDoc = None \<rparr> ''A''
           (initial_state [])))
     = Some ''b.txt''
   \<and> documents (reader_onload \<lparr> reader_file = file_b, reader_activeDoc = None \<rparr> ''B''
        (reader_onload \<lparr> reader_file = file_a, reader_activeDoc = None \<rparr> ''A''
           (initial_state [])))
     = [(''a.txt'', ''A''), (''b.txt'', ''B'')]"
  by code_simp

end
